theory Spec2Isabelle
  imports Complex_Main "HOL-Library.Log_Nat"
begin

section \<open>The result record of \<open>run.py\<close>\<close>

text \<open>
  Python numbers stored in the result: an \<open>int\<close>, a finite \<open>float\<close>, read as the
  rational number that the binary64 value stands for, and the two infinities that float
  addition can produce.
\<close>

datatype number = IntVal int | Num rat | Inf | NegInf

text \<open>\<open>class RunResponse(BaseModel)\<close>, field by field, \<open>Optional\<close> as \<open>option\<close>.\<close>

record RunResponse =
  stdout :: string
  stderr :: string
  return_code :: "int option"
  elapsed_time :: "number option"
  memory_usage :: "number option"
  timeout :: bool
  test_passed :: bool
  message :: string

text \<open>\<open>RunResponse(message=m)\<close>: every other field takes its declared default.\<close>

definition new_RunResponse :: "string \<Rightarrow> RunResponse" where
  "new_RunResponse m =
     \<lparr>stdout = [], stderr = [], return_code = None, elapsed_time = None,
      memory_usage = None, timeout = False, test_passed = False, message = m\<rparr>"

section \<open>Python built-ins used by the worker\<close>

text \<open>
  A Python \<open>str\<close> is modelled as a list of 8-bit characters, each read as the code point
  of the same number (U+0000 to U+00FF). The built-ins below follow CPython 3 on such
  strings.
\<close>

datatype exn =
    ValueError string
  | IndexError string
  | OverflowError string
  | ZeroDivisionError string

text \<open>\<open>str(e)\<close>: the message the exception was raised with.\<close>

fun str_exn :: "exn \<Rightarrow> string" where
  "str_exn (ValueError m) = m"
| "str_exn (IndexError m) = m"
| "str_exn (OverflowError m) = m"
| "str_exn (ZeroDivisionError m) = m"

text \<open>\<open>str.isspace\<close> on one character: tab to carriage return, the four separators
  U+001C to U+001F, the space, U+0085 and U+00A0.\<close>

definition isspace :: "char \<Rightarrow> bool" where
  "isspace c = (of_char c \<in> {9, 10, 11, 12, 13, 28, 29, 30, 31, 32, 133, 160 :: nat})"

text \<open>\<open>s.split()\<close> without arguments: the maximal runs of non-whitespace characters.\<close>

fun split_ws :: "string \<Rightarrow> string \<Rightarrow> string list" where
  "split_ws w [] = (if w = [] then [] else [w])"
| "split_ws w (c # cs) =
     (if isspace c then (if w = [] then split_ws [] cs else w # split_ws [] cs)
      else split_ws (w @ [c]) cs)"

definition py_split :: "string \<Rightarrow> string list" where
  "py_split s = split_ws [] s"

text \<open>\<open>s.split(sep)\<close> for a one-character separator: every occurrence splits, empty
  pieces are kept, and the result is never empty.\<close>

fun split_sep :: "char \<Rightarrow> string \<Rightarrow> string \<Rightarrow> string list" where
  "split_sep sep w [] = [w]"
| "split_sep sep w (c # cs) =
     (if c = sep then w # split_sep sep [] cs else split_sep sep (w @ [c]) cs)"

definition py_split_on :: "char \<Rightarrow> string \<Rightarrow> string list" where
  "py_split_on sep s = split_sep sep [] s"

text \<open>
  \<open>s.splitlines()\<close>: a line ends at \<open>\n\<close>, \<open>\r\<close>, \<open>\r\n\<close>, \<open>\v\<close>, \<open>\f\<close>, U+001C, U+001D,
  U+001E or U+0085; the line ends are dropped, and no empty line is reported after the
  last line end. The flag records that the previous character was \<open>\r\<close>, so that a
  following \<open>\n\<close> belongs to the same line end.
\<close>

definition is_linebreak :: "char \<Rightarrow> bool" where
  "is_linebreak c = (of_char c \<in> {10, 11, 12, 13, 28, 29, 30, 133 :: nat})"

fun split_lines :: "bool \<Rightarrow> string \<Rightarrow> string \<Rightarrow> string list" where
  "split_lines cr w [] = (if w = [] then [] else [w])"
| "split_lines cr w (c # cs) =
     (if cr \<and> c = CHR 0x0A then split_lines False w cs
      else if c = CHR 0x0D then w # split_lines True [] cs
      else if is_linebreak c then w # split_lines False [] cs
      else split_lines False (w @ [c]) cs)"

definition splitlines :: "string \<Rightarrow> string list" where
  "splitlines s = split_lines False [] s"

text \<open>\<open>sep.join(xs)\<close>.\<close>

fun join :: "string \<Rightarrow> string list \<Rightarrow> string" where
  "join sep [] = []"
| "join sep [x] = x"
| "join sep (x # y # ys) = x @ sep @ join sep (y # ys)"

text \<open>
  \<open>repr(s)\<close> of a string: single quotes unless the string holds a single quote and no
  double quote; the quote and the backslash are escaped, \<open>\t\<close>, \<open>\n\<close> and \<open>\r\<close> are
  written so, and every other non-printable code point (below U+0020, U+007F to U+00A0,
  U+00AD) as \<open>\xhh\<close>.
\<close>

definition hex_digit :: "nat \<Rightarrow> char" where
  "hex_digit n = ''0123456789abcdef'' ! (n mod 16)"

definition repr_quote :: "string \<Rightarrow> char" where
  "repr_quote s = (if CHR 0x27 \<in> set s \<and> CHR 0x22 \<notin> set s then CHR 0x22 else CHR 0x27)"

definition repr_char :: "char \<Rightarrow> char \<Rightarrow> string" where
  "repr_char q c =
     (let n = (of_char c :: nat) in
      if c = q \<or> c = CHR 0x5C then [CHR 0x5C, c]
      else if n = 9 then [CHR 0x5C, CHR ''t'']
      else if n = 10 then [CHR 0x5C, CHR ''n'']
      else if n = 13 then [CHR 0x5C, CHR ''r'']
      else if n < 32 \<or> (127 \<le> n \<and> n \<le> 160) \<or> n = 173
        then [CHR 0x5C, CHR ''x'', hex_digit (n div 16), hex_digit n]
      else [c])"

definition py_repr :: "string \<Rightarrow> string" where
  "py_repr s = (let q = repr_quote s in q # concat (map (repr_char q) s) @ [q])"

text \<open>\<open>str(n)\<close> of an integer, as the f-strings and the error messages print it.\<close>

definition digit_char :: "nat \<Rightarrow> char" where
  "digit_char n = ''0123456789'' ! (n mod 10)"

fun str_nat :: "nat \<Rightarrow> string" where
  "str_nat n = (if n < 10 then [digit_char n] else str_nat (n div 10) @ [digit_char n])"

declare str_nat.simps [simp del]

definition str_int :: "int \<Rightarrow> string" where
  "str_int i = (if i < 0 then CHR ''-'' # str_nat (nat (- i)) else str_nat (nat i))"

text \<open>
  \<open>int(s)\<close> of a string, base 10, in the order in which CPython decides it: leading
  white space is skipped, one sign is read, an underscore may not come first; the run of
  digits and underscores is scanned, and two underscores in a row or an underscore at its
  end make the literal invalid; more than 4300 digits are refused (the default of
  \<open>sys.set_int_max_str_digits\<close>); there must be a digit, and only white space after the
  run. The message of an invalid literal shows at most 200 characters of the \<open>repr\<close>.
\<close>

definition int_space :: "char \<Rightarrow> bool" where
  "int_space c = (of_char c \<in> {9, 10, 11, 12, 13, 32, 133, 160 :: nat})"

definition is_digit :: "char \<Rightarrow> bool" where
  "is_digit c = (48 \<le> (of_char c :: nat) \<and> (of_char c :: nat) \<le> 57)"

definition digit_val :: "char \<Rightarrow> nat" where
  "digit_val c = of_char c - 48"

definition digits_val :: "string \<Rightarrow> nat" where
  "digits_val ds = foldl (\<lambda>a c. 10 * a + digit_val c) 0 ds"

fun double_underscore :: "string \<Rightarrow> bool" where
  "double_underscore (a # b # cs) = ((a = CHR ''_'' \<and> b = CHR ''_'') \<or> double_underscore (b # cs))"
| "double_underscore cs = False"

definition invalid_literal :: "string \<Rightarrow> exn" where
  "invalid_literal s =
     ValueError (''invalid literal for int() with base 10: '' @ take 200 (py_repr s))"

definition too_many_digits :: "nat \<Rightarrow> exn" where
  "too_many_digits n =
     ValueError (''Exceeds the limit (4300 digits) for integer string conversion: value has ''
       @ str_nat n @ '' digits; use sys.set_int_max_str_digits() to increase the limit'')"

definition py_int :: "string \<Rightarrow> exn + int" where
  "py_int s =
     (let t = dropWhile int_space s;
          neg = (t \<noteq> [] \<and> hd t = CHR ''-'');
          body = (if t \<noteq> [] \<and> (hd t = CHR ''+'' \<or> hd t = CHR ''-'') then tl t else t);
          run = takeWhile (\<lambda>c. is_digit c \<or> c = CHR ''_'') body;
          rest = dropWhile (\<lambda>c. is_digit c \<or> c = CHR ''_'') body;
          ds = filter is_digit run
      in if body \<noteq> [] \<and> hd body = CHR ''_'' then Inl (invalid_literal s)
         else if double_underscore run then Inl (invalid_literal s)
         else if run \<noteq> [] \<and> last run = CHR ''_'' then Inl (invalid_literal s)
         else if length ds > 4300 then Inl (too_many_digits (length ds))
         else if run = [] then Inl (invalid_literal s)
         else if dropWhile int_space rest \<noteq> [] then Inl (invalid_literal s)
         else Inr (if neg then - int (digits_val ds) else int (digits_val ds)))"

text \<open>
  Float arithmetic. A finite float is the rational number it stands for, and every
  operation returns the binary64 value nearest to its exact result, a tie going to the
  value whose last mantissa bit is zero. \<open>binary64\<close> is that rounding: with the magnitude
  scaled by \<open>2^1074\<close>, the spacing of the floats around it is \<open>2^e\<close>, where \<open>e\<close> is the
  number of bits of the scaled magnitude beyond 53 (none for a subnormal), and the
  magnitude is rounded to a multiple of that spacing. The sign of a zero is not kept.
\<close>

definition round_half_even :: "rat \<Rightarrow> int" where
  "round_half_even y =
     (let f = \<lfloor>y\<rfloor>; d = y - of_int f
      in if d < 1 / 2 then f else if 1 / 2 < d then f + 1 else if even f then f else f + 1)"

definition dbl_scale :: rat where
  "dbl_scale = 2 ^ 1074"

definition binary64 :: "rat \<Rightarrow> rat" where
  "binary64 x =
     (let y = \<bar>x\<bar> * dbl_scale;
          e = nat (bitlen \<lfloor>y\<rfloor> - 53)
      in sgn x * (of_int (round_half_even (y / 2 ^ e)) * 2 ^ e / dbl_scale))"

text \<open>
  The range of binary64 changes the control flow: \<open>int / int\<close> and the conversion of the
  \<open>int\<close> operand of \<open>+\<close> raise \<open>OverflowError\<close> from \<open>2^1024 - 2^970\<close> on (the first
  magnitude that rounds beyond the largest float), and a sum of two floats that reaches
  it is an infinity. \<open>int / int\<close> rounds the exact quotient once; \<open>int + float\<close> converts
  the \<open>int\<close> to a float and rounds the sum of the two floats.
\<close>

definition dbl_limit :: rat where
  "dbl_limit = 2 ^ 1024 - 2 ^ 970"

definition true_div :: "int \<Rightarrow> int \<Rightarrow> exn + rat" where
  "true_div a b =
     (if b = 0 then Inl (ZeroDivisionError ''division by zero'')
      else if dbl_limit \<le> \<bar>of_int a / of_int b\<bar>
        then Inl (OverflowError ''integer division result too large for a float'')
      else Inr (binary64 (of_int a / of_int b)))"

definition int_add_float :: "int \<Rightarrow> rat \<Rightarrow> exn + number" where
  "int_add_float i f =
     (if dbl_limit \<le> \<bar>of_int i\<bar> then Inl (OverflowError ''int too large to convert to float'')
      else if dbl_limit \<le> binary64 (of_int i) + f then Inr Inf
      else if binary64 (of_int i) + f \<le> - dbl_limit then Inr NegInf
      else Inr (Num (binary64 (binary64 (of_int i) + f))))"

text \<open>
  \<open>round(x, 3)\<close>. An \<open>int\<close> and an infinity are returned as they are. A finite float is
  rounded to the nearest multiple of 1/1000, a tie going to the even one, and the result
  is the float nearest to that decimal.
\<close>

fun round3 :: "number \<Rightarrow> number" where
  "round3 (IntVal n) = IntVal n"
| "round3 (Num r) = Num (binary64 (of_int (round_half_even (r * 1000)) / 1000))"
| "round3 Inf = Inf"
| "round3 NegInf = NegInf"

section \<open>\<open>time_to_seconds\<close>\<close>

text \<open>Sequencing of steps that may raise: the first exception ends the computation.\<close>

fun and_then :: "exn + 'a \<Rightarrow> ('a \<Rightarrow> exn + 'b) \<Rightarrow> exn + 'b" where
  "and_then (Inl e) f = Inl e"
| "and_then (Inr x) f = f x"

text \<open>
  \<open>time_to_seconds(time_str)\<close>, statement by statement. With exactly three
  colon-separated parts the first is the hours and is dropped from \<open>parts\<close>; then
  \<open>parts[0]\<close> is the minutes, converted before \<open>parts[1]\<close> is read (an \<open>IndexError\<close> when
  there was one part only). A \<open>parts[1]\<close> holding a dot is unpacked into exactly two
  pieces; the second is divided by 100 whatever its length. Without a dot the result
  stays an \<open>int\<close>.
\<close>

definition time_to_seconds :: "string \<Rightarrow> exn + number" where
  "time_to_seconds time_str =
     (let parts = py_split_on (CHR '':'') time_str in
      and_then
        (if length parts = 3
         then and_then (py_int (hd parts)) (\<lambda>h. Inr (h * 3600, tl parts))
         else Inr (0, parts))
        (\<lambda>(seconds, parts).
          and_then (case parts of [] \<Rightarrow> Inl (IndexError ''list index out of range'')
                    | p0 # _ \<Rightarrow> py_int p0)
            (\<lambda>m. let seconds = seconds + m * 60 in
              (case tl parts of
                 [] \<Rightarrow> Inl (IndexError ''list index out of range'')
               | p1 # _ \<Rightarrow>
                   if CHR ''.'' \<in> set p1
                   then (case py_split_on (CHR ''.'') p1 of
                           [secs, msecs] \<Rightarrow>
                             and_then (py_int secs) (\<lambda>s. let seconds = seconds + s in
                             and_then (py_int msecs) (\<lambda>ms.
                             and_then (true_div ms 100) (\<lambda>f.
                             int_add_float seconds f)))
                         | _ \<Rightarrow> Inl (ValueError ''too many values to unpack (expected 2)''))
                   else and_then (py_int p1) (\<lambda>s. Inr (IntVal (seconds + s)))))))"

section \<open>\<open>run_command\<close>\<close>

text \<open>
  What \<open>subprocess.Popen\<close> and \<open>process.communicate\<close> do is the environment's choice:
  the process ends and hands back its two streams and its return code, or
  \<open>communicate\<close> raises \<open>TimeoutExpired\<close>, or either call raises another exception,
  of which the worker only uses \<open>str(e)\<close>.
\<close>

datatype proc_outcome =
    Exited string string int
  | TimeoutExpired
  | Raised string

text \<open>
  Lines 133 to 138: the telemetry line is split off the error stream and decoded. The
  unpacking of \<open>time_output.split()\<close> needs exactly two tokens.
\<close>

definition split_telemetry :: "string \<Rightarrow> string \<times> string" where
  "split_telemetry err =
     (let split_stderr = splitlines err in
      if length split_stderr > 1
      then (join [CHR 0x0A] (butlast split_stderr), last split_stderr)
      else ([], err))"

definition unpack2 :: "string list \<Rightarrow> exn + string \<times> string" where
  "unpack2 xs =
     (case xs of
        [a, b] \<Rightarrow> Inr (a, b)
      | _ \<Rightarrow> if length xs < 2
             then Inl (ValueError (''not enough values to unpack (expected 2, got ''
                                    @ str_nat (length xs) @ '')''))
             else Inl (ValueError ''too many values to unpack (expected 2)''))"

definition parse_usage :: "string \<Rightarrow> exn + string \<times> number \<times> int" where
  "parse_usage err =
     (let (stderr', time_output) = split_telemetry err in
      and_then (unpack2 (py_split time_output)) (\<lambda>(elapsed_tok, memory_tok).
      and_then (time_to_seconds elapsed_tok) (\<lambda>elapsed.
      and_then (py_int memory_tok) (\<lambda>memory. Inr (stderr', elapsed, memory)))))"

text \<open>
  The worker \<open>target\<close>, as the result it leaves behind. Lines 140 to 147 write the
  fields one after the other, so the division of line 147 is evaluated when the four
  fields before it are already stored. \<open>except TimeoutExpired\<close> sets the flag,
  \<open>except Exception\<close> stores \<open>str(e)\<close>.
\<close>

definition target :: "proc_outcome \<Rightarrow> RunResponse \<Rightarrow> RunResponse" where
  "target outcome result =
     (case outcome of
        TimeoutExpired \<Rightarrow> result\<lparr>timeout := True\<rparr>
      | Raised m \<Rightarrow> result\<lparr>message := m\<rparr>
      | Exited out err rc \<Rightarrow>
          (case parse_usage err of
             Inl e \<Rightarrow> result\<lparr>message := str_exn e\<rparr>
           | Inr (stderr', elapsed, memory) \<Rightarrow>
               (let result = (if rc = 137 then result\<lparr>timeout := True\<rparr> else result);
                    result = result\<lparr>stdout := out, stderr := stderr',
                                     return_code := Some rc,
                                     elapsed_time := Some (round3 elapsed)\<rparr>
                in case true_div memory 1024 of
                     Inl e \<Rightarrow> result\<lparr>message := str_exn e\<rparr>
                   | Inr mb \<Rightarrow> result\<lparr>memory_usage := Some (round3 (Num mb))\<rparr>)))"

text \<open>
  \<open>run_command\<close>: the worker runs on a thread of its own, the caller waits
  \<open>thread.join(timeout)\<close>, sets the flag when the thread is still alive then
  (\<open>watchdog\<close>), and joins it for good before it returns. The worker writes \<open>timeout\<close>
  only to set it, and the caller writes nothing else, so the order of the two writers
  does not show in the result.
\<close>

definition run_command :: "proc_outcome \<Rightarrow> bool \<Rightarrow> RunResponse" where
  "run_command outcome watchdog =
     (let result = target outcome (new_RunResponse [])
      in if watchdog then result\<lparr>timeout := True\<rparr> else result)"

text \<open>
  The command line and the three time bounds of \<open>run_command\<close>: the sandbox flag
  \<open>--time_limit\<close>, the bound of \<open>communicate\<close> and the bound of \<open>thread.join\<close>.
\<close>

definition nsjail_cmd :: "string \<Rightarrow> int \<Rightarrow> int \<Rightarrow> string list" where
  "nsjail_cmd tempdir timeout_s memory_limit =
     [''nsjail'', ''-Mo'', ''-q'', ''--user'', ''99999'', ''--group'', ''99999'',
      ''--rlimit_as='' @ str_int memory_limit, ''--time_limit='' @ str_int timeout_s,
      ''-R'', ''/bin/'', ''-R'', ''/lib/'', ''-R'', ''/lib64/'', ''-R'', ''/usr/'',
      ''-R'', ''/etc/alternatives/'',
      ''-B'', tempdir, ''-D'', tempdir, ''--keep_env'', ''--'']"

definition time_cmd :: "string list" where
  "time_cmd = [''/bin/time'', ''-a'', ''-f'', ''%E %M'', ''--'']"

record supervision =
  argv :: "string list"
  communicate_timeout :: int
  join_timeout :: int

definition supervise :: "string list \<Rightarrow> string \<Rightarrow> int \<Rightarrow> int \<Rightarrow> supervision" where
  "supervise command tempdir timeout_s memory_limit =
     \<lparr>argv = nsjail_cmd tempdir timeout_s memory_limit @ time_cmd @ command,
      communicate_timeout = timeout_s,
      join_timeout = timeout_s\<rparr>"

section \<open>The classification at the end of \<open>run_code\<close>\<close>

text \<open>
  Lines 60 to 72 of \<open>run_code\<close>. \<open>if result.message\<close> is the truth value of a string,
  false exactly for the empty one. \<open>result.return_code != 0\<close> compares an
  \<open>Optional[int]\<close> with \<open>0\<close>: it is true for \<open>None\<close> as well as for every non-zero
  integer. The branches are kept in the order of the source.
\<close>

definition classify :: "RunResponse \<Rightarrow> RunResponse" where
  "classify result =
     (if message result \<noteq> [] then result
      else if timeout result then result\<lparr>message := ''Time limit exceeded''\<rparr>
      else if return_code result \<noteq> Some 0 then result\<lparr>message := ''Runtime error''\<rparr>
      else if return_code result = None then result\<lparr>message := ''Server error''\<rparr>
      else result\<lparr>message := ''Success''\<rparr>)"

text \<open>\<open>run_code\<close> after the command has run: the supervised result, classified.\<close>

definition run_code :: "proc_outcome \<Rightarrow> bool \<Rightarrow> RunResponse" where
  "run_code outcome watchdog = classify (run_command outcome watchdog)"

section \<open>Auxiliary notions\<close>

text \<open>
  The text of an exception that the built-ins above raise is never empty and never begins
  with a capital S, which keeps it apart from \<open>Server error\<close> and \<open>Success\<close>.
\<close>

definition plain_text :: "exn \<Rightarrow> bool" where
  "plain_text e = (str_exn e \<noteq> [] \<and> hd (str_exn e) \<noteq> CHR ''S'')"

text \<open>
  A field of the telemetry line as \<open>/bin/time\<close> prints it: decimal digits, at least one.
  The bound on their number, far above what a clock or a memory counter prints, keeps the
  values inside the range of a float.
\<close>

definition telemetry_field :: "string \<Rightarrow> bool" where
  "telemetry_field ds = (ds \<noteq> [] \<and> list_all is_digit ds \<and> length ds \<le> 300)"

text \<open>
  The float that Python computes for \<open>S + c / 100\<close>, \<open>S\<close> and \<open>c\<close> being ints: the
  quotient is rounded, \<open>S\<close> is converted to a float, and the sum of the two is rounded.
\<close>

definition seconds_float :: "nat \<Rightarrow> nat \<Rightarrow> rat" where
  "seconds_float S c = binary64 (binary64 (of_nat S) + binary64 (of_nat c / 100))"

section \<open>Exceptions of the worker\<close>

lemma and_then_Inl:
  "and_then x f = Inl e \<Longrightarrow> x = Inl e \<or> (\<exists>v. x = Inr v \<and> f v = Inl e)"
  by (cases x) auto

lemma py_int_error: "py_int s = Inl e \<Longrightarrow> plain_text e"
  by (auto simp: py_int_def Let_def plain_text_def invalid_literal_def too_many_digits_def
      split: if_splits)

lemma true_div_error: "true_div a b = Inl e \<Longrightarrow> plain_text e"
  by (auto simp: true_div_def plain_text_def split: if_splits)

lemma int_add_float_error: "int_add_float i f = Inl e \<Longrightarrow> plain_text e"
  by (auto simp: int_add_float_def plain_text_def split: if_splits)

lemma unpack2_error: "unpack2 xs = Inl e \<Longrightarrow> plain_text e"
  by (auto simp: unpack2_def plain_text_def split: list.splits if_splits)

lemma time_to_seconds_error: "time_to_seconds t = Inl e \<Longrightarrow> plain_text e"
  unfolding time_to_seconds_def Let_def
  by (auto dest!: and_then_Inl intro: py_int_error true_div_error int_add_float_error
      simp: plain_text_def [of "IndexError m" for m] plain_text_def [of "ValueError m" for m]
      split: if_splits list.splits prod.splits)

lemma parse_usage_error: "parse_usage err = Inl e \<Longrightarrow> plain_text e"
  unfolding parse_usage_def Let_def
  by (auto dest!: and_then_Inl intro: py_int_error unpack2_error time_to_seconds_error
      split: prod.splits)

text \<open>The definitions that the evaluation of the parser on a given string unfolds.\<close>

lemmas eval_defs = parse_usage_def split_telemetry_def splitlines_def is_linebreak_def
  py_split_def isspace_def unpack2_def time_to_seconds_def py_split_on_def py_int_def
  int_space_def is_digit_def digits_val_def digit_val_def true_div_def dbl_limit_def
  int_add_float_def Let_def

section \<open>The built-ins on well-formed fields\<close>

lemma is_digit_facts:
  "is_digit c \<Longrightarrow> \<not> int_space c \<and> \<not> isspace c \<and> \<not> is_linebreak c \<and> c \<noteq> CHR ''_'' \<and>
     c \<noteq> CHR ''+'' \<and> c \<noteq> CHR ''-'' \<and> c \<noteq> CHR '':'' \<and> c \<noteq> CHR ''.''"
  by (auto simp: is_digit_def int_space_def isspace_def is_linebreak_def)

lemma split_ws_word:
  "\<forall>c\<in>set a. \<not> isspace c \<Longrightarrow> split_ws w (a @ r) = split_ws (w @ a) r"
  by (induction a arbitrary: w) auto

lemma split_sep_word:
  "sep \<notin> set a \<Longrightarrow> split_sep sep w (a @ r) = split_sep sep (w @ a) r"
  by (induction a arbitrary: w) auto

lemma split_lines_word:
  "\<forall>c\<in>set a. \<not> is_linebreak c \<Longrightarrow> a \<noteq> [] \<Longrightarrow>
     split_lines cr w (a @ r) = split_lines False (w @ a) r"
proof (induction a arbitrary: w cr)
  case Nil
  then show ?case by simp
next
  case (Cons c a)
  have c: "\<not> is_linebreak c" using Cons.prems by simp
  then have ne: "c \<noteq> CHR 0x0A" "c \<noteq> CHR 0x0D" by (auto simp: is_linebreak_def)
  show ?case
  proof (cases "a = []")
    case True
    then show ?thesis using c ne by simp
  next
    case False
    then show ?thesis using Cons.IH [of False "w @ [c]"] Cons.prems c ne by simp
  qed
qed

lemma no_double_underscore:
  "CHR ''_'' \<notin> set ds \<Longrightarrow> \<not> double_underscore ds"
  by (induction ds rule: double_underscore.induct) auto

lemma py_int_digits:
  assumes "ds \<noteq> []" "list_all is_digit ds" "length ds \<le> 4300"
  shows "py_int ds = Inr (int (digits_val ds))"
proof -
  have all: "\<forall>c\<in>set ds. is_digit c" using assms(2) by (simp add: list_all_iff)
  obtain d ds' where ds: "ds = d # ds'" using assms(1) by (cases ds) auto
  have d: "is_digit d" using all ds by simp
  have drop: "dropWhile int_space ds = ds" using d ds is_digit_facts by simp
  have hd: "hd ds \<noteq> CHR ''+''" "hd ds \<noteq> CHR ''-''" "hd ds \<noteq> CHR ''_''"
    using d ds is_digit_facts by auto
  have tw: "takeWhile (\<lambda>c. is_digit c \<or> c = CHR ''_'') ds = ds"
    using all by (simp add: takeWhile_eq_all_conv)
  have dw: "dropWhile (\<lambda>c. is_digit c \<or> c = CHR ''_'') ds = []"
    using all by simp
  have fl: "filter is_digit ds = ds" using all by simp
  have nu: "CHR ''_'' \<notin> set ds" using all is_digit_facts by blast
  have last: "last ds \<noteq> CHR ''_''" using nu assms(1) last_in_set by metis
  show ?thesis
    using assms(1,3) hd last no_double_underscore [OF nu]
    by (simp add: py_int_def drop tw dw fl)
qed

lemma digits_val_snoc: "digits_val (ds @ [c]) = 10 * digits_val ds + digit_val c"
  by (simp add: digits_val_def)

lemma digits_val_bound: "list_all is_digit ds \<Longrightarrow> digits_val ds < 10 ^ length ds"
proof (induction ds rule: rev_induct)
  case Nil
  then show ?case by (simp add: digits_val_def)
next
  case (snoc c ds)
  then have "digits_val ds < 10 ^ length ds" and "digit_val c \<le> 9"
    by (auto simp: is_digit_def digit_val_def)
  then show ?case by (simp add: digits_val_snoc)
qed

lemma field_bound:
  assumes "telemetry_field ds"
  shows "digits_val ds < 10 ^ 300"
proof -
  have "digits_val ds < 10 ^ length ds"
    using assms digits_val_bound by (simp add: telemetry_field_def)
  also have "(10::nat) ^ length ds \<le> 10 ^ 300"
    using assms by (intro power_increasing) (simp_all add: telemetry_field_def)
  finally show ?thesis .
qed

section \<open>Rounding to binary64\<close>

lemma round_half_even_int: "round_half_even (of_int n) = n"
  by (simp add: round_half_even_def)

lemma round_half_even_bounds:
  "y - 1 / 2 \<le> of_int (round_half_even y) \<and> of_int (round_half_even y) \<le> y + 1 / 2"
proof -
  define f where "f = \<lfloor>y\<rfloor>"
  define d where "d = y - of_int f"
  have a: "of_int f \<le> y" and b: "y < of_int f + 1" unfolding f_def by linarith+
  have r: "round_half_even y
      = (if d < 1 / 2 then f else if 1 / 2 < d then f + 1 else if even f then f else f + 1)"
    by (simp add: round_half_even_def Let_def f_def d_def)
  consider "d < 1 / 2" | "1 / 2 < d" | "d = 1 / 2" by linarith
  then show ?thesis
  proof cases
    case 1
    then have "round_half_even y = f" using r by simp
    then show ?thesis using a 1 d_def by simp
  next
    case 2
    then have "round_half_even y = f + 1" using r by simp
    then show ?thesis using b 2 d_def by simp
  next
    case 3
    then have "round_half_even y = f \<or> round_half_even y = f + 1" using r by simp
    then show ?thesis using 3 d_def by auto
  qed
qed

lemma round_half_even_err: "\<bar>of_int (round_half_even y) - y\<bar> \<le> 1 / 2"
  using round_half_even_bounds [of y] by linarith

lemma round_half_even_near:
  assumes "\<bar>y - of_int n\<bar> < 1 / 2"
  shows "round_half_even y = n"
proof -
  have "\<bar>of_int (round_half_even y) - (of_int n :: rat)\<bar> < 1"
    using round_half_even_err [of y] assms by linarith
  then have "\<bar>of_int (round_half_even y - n) :: rat\<bar> < 1" by simp
  then have "\<bar>round_half_even y - n\<bar> < 1"
    by (metis of_int_abs of_int_less_1_iff)
  then show ?thesis by simp
qed

lemma dbl_scale_pos: "0 < dbl_scale"
  by (simp add: dbl_scale_def)

lemma binary64_zero: "binary64 0 = 0"
  by (simp add: binary64_def)

lemma sgn_abs_rat: "sgn x * \<bar>x\<bar> = (x::rat)"
  by (simp add: abs_if sgn_if)

lemma binary64_exact:
  assumes "\<bar>x\<bar> * dbl_scale = of_int m * 2 ^ j" "0 \<le> m" "m < 2 ^ 53"
  shows "binary64 x = x"
proof (cases "m = 0")
  case True
  then have "x = 0" using assms(1) dbl_scale_pos by simp
  then show ?thesis by (simp add: binary64_zero)
next
  case False
  then have m: "0 < m" using assms(2) by simp
  define y where "y = \<bar>x\<bar> * dbl_scale"
  have ym: "y = of_int m * 2 ^ j" using assms(1) by (simp add: y_def)
  have fl: "\<lfloor>y\<rfloor> = m * 2 ^ j"
    unfolding ym by (metis floor_of_int of_int_mult of_int_numeral of_int_power)
  have "bitlen m \<le> 53" using assms(3) by (simp add: bitlen_le_iff_power)
  then have e: "nat (bitlen (m * 2 ^ j) - 53) \<le> j"
    using m by simp
  define e where "e = nat (bitlen (m * 2 ^ j) - 53)"
  have ej: "e \<le> j" using e by (simp add: e_def)
  have pj: "(2::rat) ^ j = 2 ^ (j - e) * 2 ^ e" using ej by (simp flip: power_add)
  have "y / 2 ^ e = of_int (m * 2 ^ (j - e))"
    unfolding ym pj by simp
  then have "of_int (round_half_even (y / 2 ^ e)) = of_int m * (2::rat) ^ (j - e)"
    by (simp only: round_half_even_int) simp
  then have r: "of_int (round_half_even (y / 2 ^ e)) * 2 ^ e = y"
    unfolding ym pj by simp
  have "binary64 x = sgn x * (of_int (round_half_even (y / 2 ^ e)) * 2 ^ e / dbl_scale)"
    unfolding binary64_def Let_def y_def [symmetric] fl e_def ..
  also have "\<dots> = sgn x * \<bar>x\<bar>" unfolding r using dbl_scale_pos by (simp add: y_def)
  also have "\<dots> = x" by (rule sgn_abs_rat)
  finally show ?thesis .
qed

lemma binary64_int:
  assumes "\<bar>i\<bar> < 2 ^ 53"
  shows "binary64 (of_int i) = of_int i"
proof (rule binary64_exact [of _ "\<bar>i\<bar>" 1074])
  show "\<bar>rat_of_int i\<bar> * dbl_scale = rat_of_int \<bar>i\<bar> * 2 ^ 1074"
    unfolding dbl_scale_def by simp
qed (use assms in simp_all)

lemma binary64_err:
  "\<bar>binary64 x - x\<bar> \<le> \<bar>x\<bar> / 2 ^ 53 + 1 / (2 * dbl_scale)"
proof -
  define y where "y = \<bar>x\<bar> * dbl_scale"
  define n where "n = \<lfloor>y\<rfloor>"
  define e where "e = nat (bitlen n - 53)"
  have ypos: "0 \<le> y" unfolding y_def using dbl_scale_pos by simp
  have ey: "(2::rat) ^ e \<le> 1 + y / 2 ^ 52"
  proof (cases "e = 0")
    case True
    then show ?thesis using ypos by simp
  next
    case False
    then have eb: "bitlen n = int e + 53" by (simp add: e_def)
    then have "n \<noteq> 0" using False by auto
    moreover have "0 \<le> n" unfolding n_def using ypos by simp
    ultimately have npos: "0 < n" by simp
    have "2 ^ nat (bitlen n - 1) \<le> n" using bitlen_bounds [OF npos] by simp
    then have "2 ^ (e + 52) \<le> n" unfolding eb by (simp add: nat_add_distrib add.commute)
    then have "(2::rat) ^ (e + 52) \<le> of_int n"
      by (metis of_int_le_iff of_int_numeral of_int_power)
    also have "\<dots> \<le> y" unfolding n_def by simp
    finally have "(2::rat) ^ e * 2 ^ 52 \<le> y" by (simp add: power_add)
    then have "(2::rat) ^ e \<le> y / 2 ^ 52" by (simp add: field_simps)
    then show ?thesis by simp
  qed
  define r where "r = (of_int (round_half_even (y / 2 ^ e)) :: rat)"
  have bx: "binary64 x = sgn x * (r * 2 ^ e / dbl_scale)"
    unfolding binary64_def Let_def y_def [symmetric] n_def [symmetric] e_def [symmetric] r_def ..
  have xx: "x = sgn x * (y / dbl_scale)"
    using dbl_scale_pos sgn_abs_rat [of x] by (simp add: y_def)
  have "binary64 x - x = sgn x * (r * 2 ^ e / dbl_scale) - sgn x * (y / dbl_scale)"
    using bx xx by simp
  also have "\<dots> = sgn x * ((r * 2 ^ e - y) / dbl_scale)"
    by (simp add: right_diff_distrib diff_divide_distrib)
  also have "r * 2 ^ e - y = (r - y / 2 ^ e) * 2 ^ e"
    by (simp add: left_diff_distrib)
  finally have "\<bar>binary64 x - x\<bar> = \<bar>sgn x\<bar> * (\<bar>r - y / 2 ^ e\<bar> * 2 ^ e / dbl_scale)"
    using dbl_scale_pos by (simp add: abs_mult)
  also have "\<dots> \<le> 1 * ((1 / 2) * 2 ^ e / dbl_scale)"
    using round_half_even_err [of "y / 2 ^ e"] dbl_scale_pos unfolding r_def
    by (intro mult_mono divide_right_mono mult_right_mono) (simp_all add: abs_if sgn_if)
  also have "\<dots> \<le> (1 / 2) * (1 + y / 2 ^ 52) / dbl_scale"
  proof -
    have "(1 / 2) * 2 ^ e / dbl_scale \<le> (1 / 2) * (1 + y / 2 ^ 52) / dbl_scale"
      by (rule divide_right_mono) (use ey dbl_scale_pos in simp_all)
    then show ?thesis by simp
  qed
  also have "\<dots> = \<bar>x\<bar> / 2 ^ 53 + 1 / (2 * dbl_scale)"
    using dbl_scale_pos by (simp add: y_def field_simps)
  finally show ?thesis .
qed

lemma dbl_scale_large: "1 / (2 * dbl_scale) \<le> 1 / 2 ^ 53"
proof -
  have "(2::rat) ^ 53 \<le> 2 ^ 1074" by (rule power_increasing) simp_all
  also have "\<dots> \<le> 2 * dbl_scale" using dbl_scale_pos by (simp add: dbl_scale_def)
  finally show ?thesis by (intro divide_left_mono) simp_all
qed

lemma round_half_even_nonneg: "0 \<le> y \<Longrightarrow> 0 \<le> round_half_even y"
proof -
  assume "0 \<le> y"
  then have "(of_int (- 1) :: rat) < of_int (round_half_even y)"
    using round_half_even_bounds [of y] by simp
  then have "- 1 < round_half_even y" by (simp only: of_int_less_iff)
  then show ?thesis by simp
qed

lemma binary64_sign:
  assumes "0 \<le> x"
  shows "0 \<le> binary64 x"
proof -
  have "0 \<le> round_half_even (\<bar>x\<bar> * dbl_scale / 2 ^ e)" for e
    using dbl_scale_pos by (intro round_half_even_nonneg) simp
  then show ?thesis
    using assms dbl_scale_pos by (simp add: binary64_def Let_def sgn_if)
qed

lemma binary64_nat:
  assumes "n < 2 ^ 53"
  shows "binary64 (of_nat n) = of_nat n"
proof -
  have "\<bar>int n\<bar> < 2 ^ 53" using assms by (metis abs_of_nat of_nat_less_iff of_nat_numeral of_nat_power)
  from binary64_int [OF this] show ?thesis by simp
qed

lemma binary64_quotient_1024:
  assumes "k < 2 ^ 53"
  shows "binary64 (of_nat k / 1024) = of_nat k / 1024"
proof (rule binary64_exact [of _ "int k" 1064])
  have "(2::rat) ^ 1074 = 1024 * 2 ^ 1064" by (simp flip: power_add add: power_add [of 2 10 1064, symmetric])
  then show "\<bar>rat_of_nat k / 1024\<bar> * dbl_scale = rat_of_int (int k) * 2 ^ 1064"
    unfolding dbl_scale_def by simp
  show "int k < 2 ^ 53" using assms by (metis of_nat_less_iff of_nat_numeral of_nat_power)
qed simp

lemma seconds_float_accurate:
  fixes S c :: nat
  assumes "S < 10 ^ 12" "c < 100"
  shows "\<bar>seconds_float S c - (of_nat S + of_nat c / 100)\<bar> \<le> (of_nat S + 5) / 2 ^ 53"
    and "round3 (Num (seconds_float S c)) = Num (binary64 (of_nat S + of_nat c / 100))"
proof -
  define v where "v = seconds_float S c"
  define f where "f = binary64 (of_nat c / 100)"
  define t where "t = of_nat S + f"
  define X where "X = (of_nat S + of_nat c / 100 :: rat)"
  have S53: "S < 2 ^ 53" using assms(1) by simp
  have vt: "v = binary64 t" unfolding v_def seconds_float_def t_def f_def using binary64_nat [OF S53] by simp
  have c1: "(of_nat c :: rat) / 100 \<le> 1"
    using assms(2) by (simp add: le_divide_eq)
  have c0: "(0::rat) \<le> of_nat c / 100" by simp
  have p53: "(2::rat) / 2 ^ 53 \<le> 1" by simp
  have ef: "\<bar>f - of_nat c / 100\<bar> \<le> 2 / 2 ^ 53"
  proof -
    have "\<bar>f - of_nat c / 100\<bar> \<le> \<bar>of_nat c / 100 :: rat\<bar> / 2 ^ 53 + 1 / (2 * dbl_scale)"
      unfolding f_def by (rule binary64_err)
    also have "\<dots> \<le> 1 / 2 ^ 53 + 1 / 2 ^ 53"
      using c1 c0 dbl_scale_large by (intro add_mono divide_right_mono) simp_all
    finally show ?thesis by simp
  qed
  have f0: "0 \<le> f" unfolding f_def by (rule binary64_sign) simp
  have t0: "0 \<le> t" unfolding t_def using f0 by simp
  have t1: "t \<le> of_nat S + 2" unfolding t_def using ef c1 p53 by linarith
  have et: "\<bar>v - t\<bar> \<le> (of_nat S + 2) / 2 ^ 53 + 1 / 2 ^ 53"
  proof -
    have "\<bar>v - t\<bar> \<le> \<bar>t\<bar> / 2 ^ 53 + 1 / (2 * dbl_scale)"
      unfolding vt by (rule binary64_err)
    also have "\<dots> \<le> (of_nat S + 2) / 2 ^ 53 + 1 / 2 ^ 53"
      using t0 t1 dbl_scale_large by (intro add_mono divide_right_mono) simp_all
    finally show ?thesis .
  qed
  have "\<bar>v - X\<bar> \<le> \<bar>v - t\<bar> + \<bar>f - of_nat c / 100\<bar>"
    unfolding t_def X_def by linarith
  also have "\<dots> \<le> ((of_nat S + 2) / 2 ^ 53 + 1 / 2 ^ 53) + 2 / 2 ^ 53"
    using et ef by (rule add_mono)
  also have "\<dots> = (of_nat S + 5) / 2 ^ 53" by (simp add: add_divide_distrib)
  finally have err: "\<bar>v - X\<bar> \<le> (of_nat S + 5) / 2 ^ 53" .
  then show "\<bar>seconds_float S c - (of_nat S + of_nat c / 100)\<bar> \<le> (of_nat S + 5) / 2 ^ 53"
    by (simp add: X_def v_def)
  have "(of_nat S :: rat) < 10 ^ 12"
    using assms(1) by (metis of_nat_less_iff of_nat_numeral of_nat_power)
  then have "(of_nat S + 5) / 2 ^ 53 \<le> (10 ^ 12 + 5 :: rat) / 2 ^ 53"
    by (intro divide_right_mono) simp_all
  also have "\<dots> < 1 / 2000" by simp
  finally have "\<bar>v - X\<bar> < 1 / 2000" using err by linarith
  then have "\<bar>v * 1000 - X * 1000\<bar> < 1 / 2" by linarith
  moreover have "X * 1000 = of_int (int (1000 * S + 10 * c))" by (simp add: X_def)
  ultimately have "\<bar>v * 1000 - of_int (int (1000 * S + 10 * c))\<bar> < 1 / 2"
    by (simp only:)
  then have r: "round_half_even (v * 1000) = int (1000 * S + 10 * c)"
    by (rule round_half_even_near)
  have q: "rat_of_int (int (1000 * S + 10 * c)) / 1000 = of_nat S + of_nat c / 100"
    by simp
  show "round3 (Num (seconds_float S c)) = Num (binary64 (of_nat S + of_nat c / 100))"
    unfolding v_def [symmetric] round3.simps r q ..
qed

text \<open>The value of \<open>binary64\<close> at a given number, from the position of its leading bit.\<close>

lemma binary64_eval:
  assumes "2 ^ 52 \<le> x * 2 ^ k" "x * 2 ^ k < 2 ^ 53" "k \<le> 1074"
    "\<bar>x * 2 ^ k - of_int m\<bar> < 1 / 2"
  shows "binary64 x = of_int m / 2 ^ k"
proof -
  have "0 < x * 2 ^ k" using assms(1) by (rule less_le_trans [rotated]) simp
  then have x0: "0 < x" by (simp add: zero_less_mult_iff)
  define j where "j = 1074 - k"
  have sc: "dbl_scale = 2 ^ k * 2 ^ j"
    unfolding dbl_scale_def j_def using assms(3) by (simp flip: power_add)
  define y where "y = \<bar>x\<bar> * dbl_scale"
  have yx: "y = (x * 2 ^ k) * 2 ^ j" unfolding y_def sc using x0 by simp
  have lo: "2 ^ (52 + j) \<le> y"
    unfolding yx power_add using assms(1) by (intro mult_right_mono) simp_all
  have hi: "y < 2 ^ (53 + j)"
    unfolding yx power_add using assms(2) by (intro mult_strict_right_mono) simp_all
  define n where "n = \<lfloor>y\<rfloor>"
  have "rat_of_int (2 ^ (52 + j)) \<le> y" using lo by simp
  then have nlo: "2 ^ (52 + j) \<le> n" unfolding n_def by (simp only: le_floor_iff)
  have "y < rat_of_int (2 ^ (53 + j))" using hi by simp
  then have nhi: "n < 2 ^ (53 + j)" unfolding n_def by (simp only: floor_less_iff)
  have "bitlen n \<le> int (53 + j)"
    unfolding bitlen_le_iff_power nat_int using nhi by simp
  moreover have "int (53 + j) \<le> bitlen n"
    unfolding bitlen_ge_iff_power nat_int using nlo by simp
  ultimately have "bitlen n = int (53 + j)" by simp
  then have e: "nat (bitlen n - 53) = j" by simp
  have "y / 2 ^ j = x * 2 ^ k" unfolding yx by simp
  then have r: "round_half_even (y / 2 ^ j) = m"
    using assms(4) by (simp add: round_half_even_near)
  have "binary64 x = sgn x * (of_int m * 2 ^ j / dbl_scale)"
    unfolding binary64_def Let_def y_def [symmetric] n_def [symmetric] e r ..
  also have "\<dots> = of_int m / 2 ^ k" using x0 by (simp add: sc)
  finally show ?thesis .
qed

text \<open>
  \<open>2 + 5 / 100\<close> in floats: 0.05 is \<open>7205759403792794 / 2^57\<close>, and the sum rounds to
  \<open>4616189618054758 / 2^51\<close>, which is also the float nearest to 2.05.
\<close>

lemma seconds_float_2_5:
  "seconds_float 2 5 = 2308094809027379 / 1125899906842624"
  "binary64 (205 / 100) = 2308094809027379 / 1125899906842624"
proof -
  have a: "binary64 (5 / 100) = of_int 7205759403792794 / 2 ^ 57"
    by (rule binary64_eval) simp_all
  have b: "binary64 (2 + of_int 7205759403792794 / 2 ^ 57) = of_int 4616189618054758 / 2 ^ 51"
    by (rule binary64_eval) simp_all
  have c: "binary64 (205 / 100) = of_int 4616189618054758 / 2 ^ 51"
    by (rule binary64_eval) simp_all
  have two: "binary64 (of_nat 2) = of_nat 2" by (rule binary64_nat) simp
  show "seconds_float 2 5 = 2308094809027379 / 1125899906842624"
  proof -
    have "seconds_float 2 5 = binary64 (2 + binary64 (5 / 100))"
      unfolding seconds_float_def two by simp
    also have "\<dots> = binary64 (2 + of_int 7205759403792794 / 2 ^ 57)" by (simp only: a)
    also have "\<dots> = of_int 4616189618054758 / 2 ^ 51" by (rule b)
    also have "\<dots> = 2308094809027379 / 1125899906842624" by simp
    finally show ?thesis .
  qed
  show "binary64 (205 / 100) = 2308094809027379 / 1125899906842624"
    using c by simp
qed

section \<open>\<open>time_to_seconds\<close> on well-formed tokens\<close>

lemma binary64_le:
  assumes "0 \<le> x"
  shows "binary64 x \<le> 2 * x + 1"
proof -
  have e: "\<bar>binary64 x - x\<bar> \<le> \<bar>x\<bar> / 2 ^ 53 + 1 / (2 * dbl_scale)" by (rule binary64_err)
  have "x / 2 ^ 53 \<le> x / 1" by (rule divide_left_mono) (use assms in simp_all)
  then have a: "\<bar>x\<bar> / 2 ^ 53 \<le> x" using assms by simp
  have "(1::rat) / 2 ^ 53 \<le> 1" by simp
  then have b: "1 / (2 * dbl_scale) \<le> 1" using dbl_scale_large by linarith
  show ?thesis using e a b by linarith
qed

lemma true_div_small:
  assumes "c < 10 ^ 300" "b = 100 \<or> b = 1024"
  shows "true_div (int c) b = Inr (binary64 (of_nat c / of_int b))"
proof -
  have "(of_nat c :: rat) < 10 ^ 300" using assms(1) by (metis of_nat_less_iff of_nat_numeral of_nat_power)
  moreover have "(0::rat) \<le> of_nat c" by simp
  ultimately have "\<not> dbl_limit \<le> \<bar>of_nat c / of_int b\<bar>"
    using assms(2) by (auto simp: dbl_limit_def abs_if field_simps)
  then show ?thesis using assms(2) by (auto simp: true_div_def)
qed

lemma int_add_float_small:
  assumes "i < 3661 * 10 ^ 300" "0 \<le> f" "f < 10 ^ 300"
  shows "int_add_float (int i) f = Inr (Num (binary64 (binary64 (of_nat i) + f)))"
proof -
  have i: "(of_nat i :: rat) < 3661 * 10 ^ 300"
    using assms(1) by (metis of_nat_less_iff of_nat_numeral of_nat_power of_nat_mult)
  have i0: "(0::rat) \<le> of_nat i" by simp
  have "binary64 (of_nat i) \<le> 2 * of_nat i + 1" using i0 by (rule binary64_le)
  then have up: "binary64 (of_nat i) + f < 7323 * 10 ^ 300 + 1"
    using i assms(3) by linarith
  have lo: "0 \<le> binary64 (of_nat i) + f"
    using binary64_sign [OF i0] assms(2) by simp
  have lim: "(7323 * 10 ^ 300 + 1 :: rat) < dbl_limit" "3661 * 10 ^ 300 < dbl_limit"
    "0 < dbl_limit"
    by (simp_all add: dbl_limit_def)
  have "\<not> dbl_limit \<le> \<bar>rat_of_int (int i)\<bar>" using i lim(2) by simp
  moreover have "\<not> dbl_limit \<le> binary64 (of_nat i) + f" using up lim(1) by linarith
  moreover have "\<not> binary64 (of_nat i) + f \<le> - dbl_limit" using lo lim(3) by linarith
  ultimately show ?thesis by (simp add: int_add_float_def)
qed

lemma field_no_sep:
  "telemetry_field ds \<Longrightarrow> CHR '':'' \<notin> set ds \<and> CHR ''.'' \<notin> set ds"
  using is_digit_facts by (auto simp: telemetry_field_def list_all_iff)

lemma py_int_field: "telemetry_field ds \<Longrightarrow> py_int ds = Inr (int (digits_val ds))"
  by (rule py_int_digits) (simp_all add: telemetry_field_def)

lemma split_seconds:
  assumes "telemetry_field ss" "telemetry_field cs"
  shows "py_split_on (CHR ''.'') (ss @ CHR ''.'' # cs) = [ss, cs]"
  using split_sep_word [of "CHR ''.''" ss "[]" "CHR ''.'' # cs"]
        split_sep_word [of "CHR ''.''" cs "[]" "[]"] field_no_sep assms
  by (simp add: py_split_on_def)

lemma split_min_sec:
  assumes "telemetry_field ms" "telemetry_field ss" "telemetry_field cs"
  shows "py_split_on (CHR '':'') (ms @ CHR '':'' # ss @ CHR ''.'' # cs)
           = [ms, ss @ CHR ''.'' # cs]"
proof -
  have "CHR '':'' \<notin> set (ss @ CHR ''.'' # cs)" using field_no_sep assms by auto
  then have "split_sep (CHR '':'') [] ((ss @ CHR ''.'' # cs) @ []) = [ss @ CHR ''.'' # cs]"
    by (subst split_sep_word) simp_all
  then show ?thesis
    using split_sep_word [of "CHR '':''" ms "[]" "CHR '':'' # ss @ CHR ''.'' # cs"]
          field_no_sep assms(1)
    by (simp add: py_split_on_def)
qed

lemma split_hour_min_sec:
  assumes "telemetry_field hs" "telemetry_field ms" "telemetry_field ss" "telemetry_field cs"
  shows "py_split_on (CHR '':'') (hs @ CHR '':'' # ms @ CHR '':'' # ss @ CHR ''.'' # cs)
           = [hs, ms, ss @ CHR ''.'' # cs]"
  using split_sep_word [of "CHR '':''" hs "[]" "CHR '':'' # ms @ CHR '':'' # ss @ CHR ''.'' # cs"]
        split_min_sec [OF assms(2,3,4)] field_no_sep assms(1)
  by (simp add: py_split_on_def)

lemma seconds_part:
  assumes "telemetry_field ss" "telemetry_field cs" "i < 3660 * 10 ^ 300"
  shows "and_then (py_int ss) (\<lambda>s. let seconds = int i + s in
           and_then (py_int cs) (\<lambda>ms. and_then (true_div ms 100) (\<lambda>f.
           int_add_float seconds f)))
         = Inr (Num (seconds_float (i + digits_val ss) (digits_val cs)))"
proof -
  have s: "digits_val ss < 10 ^ 300" and c: "digits_val cs < 10 ^ 300"
    using assms field_bound by auto
  define f where "f = binary64 (of_nat (digits_val cs) / 100)"
  have td: "true_div (int (digits_val cs)) 100 = Inr f"
    using true_div_small [OF c, of 100] by (simp add: f_def)
  have c': "(of_nat (digits_val cs) :: rat) < 10 ^ 300"
    using c by (metis of_nat_less_iff of_nat_numeral of_nat_power)
  have c0: "(0::rat) \<le> of_nat (digits_val cs) / 100" by simp
  have f0: "0 \<le> f" unfolding f_def using c0 by (rule binary64_sign)
  have "f \<le> 2 * (of_nat (digits_val cs) / 100) + 1" unfolding f_def using c0 by (rule binary64_le)
  also have "\<dots> < 2 * (10 ^ 300 / 100) + 1" using c' by simp
  also have "\<dots> < 10 ^ 300" by simp
  finally have f1: "f < 10 ^ 300" .
  have "i + digits_val ss < 3661 * 10 ^ 300" using s assms(3) by simp
  from int_add_float_small [OF this f0 f1]
  have "int_add_float (int i + int (digits_val ss)) f
      = Inr (Num (seconds_float (i + digits_val ss) (digits_val cs)))"
    by (simp add: seconds_float_def f_def)
  then show ?thesis
    using assms(1,2) by (simp add: py_int_field td)
qed

lemma time_to_seconds_min_sec:
  assumes "telemetry_field ms" "telemetry_field ss" "telemetry_field cs"
  shows "time_to_seconds (ms @ '':'' @ ss @ ''.'' @ cs)
     = Inr (Num (seconds_float (digits_val ms * 60 + digits_val ss) (digits_val cs)))"
proof -
  have m: "digits_val ms * 60 < 3660 * 10 ^ 300" using field_bound [OF assms(1)] by simp
  show ?thesis
    using seconds_part [OF assms(2,3) m] split_min_sec [OF assms] split_seconds [OF assms(2,3)]
      assms(1)
    by (simp add: time_to_seconds_def py_int_field)
qed

lemma time_to_seconds_hour_min_sec:
  assumes "telemetry_field hs" "telemetry_field ms" "telemetry_field ss" "telemetry_field cs"
  shows "time_to_seconds (hs @ '':'' @ ms @ '':'' @ ss @ ''.'' @ cs)
     = Inr (Num (seconds_float (digits_val hs * 3600 + digits_val ms * 60 + digits_val ss)
                  (digits_val cs)))"
proof -
  have m: "digits_val hs * 3600 + digits_val ms * 60 < 3660 * 10 ^ 300"
    using field_bound [OF assms(1)] field_bound [OF assms(2)] by simp
  show ?thesis
    using seconds_part [OF assms(3,4) m] split_hour_min_sec [OF assms]
      split_seconds [OF assms(3,4)] assms(1,2)
    by (simp add: time_to_seconds_def py_int_field)
qed

section \<open>Lines of the error stream\<close>

text \<open>
  \<open>splitlines\<close> on a text written line by line: a line free of line ends, followed by
  \<open>\n\<close>, is reported as it is, and the text after the last \<open>\n\<close> is a line unless it is
  empty. A text that ends with \<open>\n\<close> has the same lines as the text without it.
\<close>

lemma split_lines_line:
  "\<forall>c\<in>set a. \<not> is_linebreak c \<Longrightarrow>
     split_lines False w (a @ CHR 0x0A # r) = (w @ a) # split_lines False [] r"
proof (induction a arbitrary: w)
  case Nil
  then show ?case by (simp add: is_linebreak_def)
next
  case (Cons c a)
  have c: "\<not> is_linebreak c" using Cons.prems by simp
  then have ne: "c \<noteq> CHR 0x0A" "c \<noteq> CHR 0x0D" by (auto simp: is_linebreak_def)
  show ?case using Cons.IH [of "w @ [c]"] Cons.prems c ne by simp
qed

lemma split_lines_last:
  "\<forall>c\<in>set a. \<not> is_linebreak c \<Longrightarrow>
     split_lines False w a = (if w @ a = [] then [] else [w @ a])"
proof (induction a arbitrary: w)
  case Nil
  then show ?case by simp
next
  case (Cons c a)
  have c: "\<not> is_linebreak c" using Cons.prems by simp
  then have ne: "c \<noteq> CHR 0x0A" "c \<noteq> CHR 0x0D" by (auto simp: is_linebreak_def)
  show ?case using Cons.IH [of "w @ [c]"] Cons.prems c ne by simp
qed

lemma splitlines_join:
  assumes "\<forall>l\<in>set ls. \<forall>c\<in>set l. \<not> is_linebreak c" "ls \<noteq> []" "last ls \<noteq> []"
  shows "splitlines (join [CHR 0x0A] ls) = ls"
  using assms unfolding splitlines_def
proof (induction "[CHR 0x0A]" ls rule: join.induct)
  case 1
  then show ?case by simp
next
  case (2 x)
  then show ?case by (simp add: split_lines_last)
next
  case (3 x y ys)
  then show ?case by (simp add: split_lines_line)
qed

lemma splitlines_join_newline:
  assumes "\<forall>l\<in>set ls. \<forall>c\<in>set l. \<not> is_linebreak c" "ls \<noteq> []"
  shows "splitlines (join [CHR 0x0A] ls @ [CHR 0x0A]) = ls"
  using assms unfolding splitlines_def
proof (induction "[CHR 0x0A]" ls rule: join.induct)
  case 1
  then show ?case by simp
next
  case (2 x)
  then show ?case by (simp add: split_lines_line)
next
  case (3 x y ys)
  then show ?case by (simp add: split_lines_line)
qed

section \<open>The worker on a well-formed telemetry line\<close>

lemma py_split_telemetry:
  assumes tok: "tok \<noteq> []" "\<forall>c\<in>set tok. \<not> isspace c \<and> \<not> is_linebreak c"
    and mem: "mem \<noteq> []" "\<forall>c\<in>set mem. \<not> isspace c \<and> \<not> is_linebreak c"
    and nl: "nl = [] \<or> nl = [CHR 0x0A]"
  shows "py_split (tok @ '' '' @ mem @ nl) = [tok, mem]"
proof -
  have sp: "isspace (CHR '' '')" "isspace (CHR 0x0A)" by (simp_all add: isspace_def)
  have "split_ws [] (mem @ nl) = [mem]"
    using mem nl sp by (subst split_ws_word) auto
  then show ?thesis
    using split_ws_word [of tok "[]" "CHR '' '' # mem @ nl"] tok sp by (simp add: py_split_def)
qed

lemma parse_usage_stream:
  assumes ls: "\<forall>l\<in>set ls. \<forall>c\<in>set l. \<not> is_linebreak c"
    and tok: "tok \<noteq> []" "\<forall>c\<in>set tok. \<not> isspace c \<and> \<not> is_linebreak c"
    and mem: "mem \<noteq> []" "\<forall>c\<in>set mem. \<not> isspace c \<and> \<not> is_linebreak c"
    and nl: "nl = [] \<or> nl = [CHR 0x0A]"
    and v: "time_to_seconds tok = Inr v" and k: "py_int mem = Inr k"
  shows "parse_usage (join [CHR 0x0A] (ls @ [tok @ '' '' @ mem]) @ nl)
           = Inr (join [CHR 0x0A] ls, v, k)"
proof -
  define tel where "tel = tok @ '' '' @ mem"
  have sp: "\<not> is_linebreak (CHR '' '')" by (simp add: is_linebreak_def)
  have tel: "tel \<noteq> []" "\<forall>c\<in>set tel. \<not> is_linebreak c"
    using tok mem sp by (auto simp: tel_def)
  have all: "\<forall>l\<in>set (ls @ [tel]). \<forall>c\<in>set l. \<not> is_linebreak c" using ls tel by auto
  have lines: "splitlines (join [CHR 0x0A] (ls @ [tel]) @ nl) = ls @ [tel]"
    using nl splitlines_join [OF all] splitlines_join_newline [OF all] tel(1) by auto
  have p0: "py_split (tel @ []) = [tok, mem]" "py_split (tel @ [CHR 0x0A]) = [tok, mem]"
    using py_split_telemetry [OF tok mem, of "[]"] py_split_telemetry [OF tok mem, of "[CHR 0x0A]"]
    by (simp_all add: tel_def)
  show ?thesis
  proof (cases "ls = []")
    case True
    then have "split_telemetry (join [CHR 0x0A] (ls @ [tel]) @ nl) = ([], tel @ nl)"
      using lines by (simp add: split_telemetry_def)
    moreover have "py_split (tel @ nl) = [tok, mem]" using nl p0 by auto
    ultimately show ?thesis
      using True v k unfolding tel_def [symmetric] by (simp add: parse_usage_def unpack2_def)
  next
    case False
    then have "split_telemetry (join [CHR 0x0A] (ls @ [tel]) @ nl) = (join [CHR 0x0A] ls, tel)"
      using lines by (simp add: split_telemetry_def)
    moreover have "py_split tel = [tok, mem]" using p0(1) by simp
    ultimately show ?thesis
      using v k unfolding tel_def [symmetric] by (simp add: parse_usage_def unpack2_def)
  qed
qed

lemma parse_usage_single_line:
  assumes tok: "tok \<noteq> []" "\<forall>c\<in>set tok. \<not> isspace c \<and> \<not> is_linebreak c"
    and mem: "mem \<noteq> []" "\<forall>c\<in>set mem. \<not> isspace c \<and> \<not> is_linebreak c"
    and v: "time_to_seconds tok = Inr v" and k: "py_int mem = Inr k"
  shows "parse_usage (tok @ '' '' @ mem) = Inr ([], v, k)"
  using parse_usage_stream [of "[]" tok mem "[]", OF _ tok mem _ v k] by simp

lemma run_command_parsed:
  assumes "parse_usage err = Inr (cleaned, v, int k)" "k < 10 ^ 300"
  shows "run_command (Exited out err rc) w =
     \<lparr>stdout = out, stderr = cleaned, return_code = Some rc,
      elapsed_time = Some (round3 v),
      memory_usage = Some (round3 (Num (binary64 (of_nat k / 1024)))),
      timeout = (rc = 137 \<or> w), test_passed = False, message = []\<rparr>"
  using assms(1) true_div_small [OF assms(2), of 1024]
  by (auto simp: run_command_def target_def new_RunResponse_def Let_def)

lemma field_plain:
  "telemetry_field ds \<Longrightarrow> \<forall>c\<in>set ds. \<not> isspace c \<and> \<not> is_linebreak c"
  using is_digit_facts by (auto simp: telemetry_field_def list_all_iff)

lemma token_plain:
  assumes "\<forall>c\<in>set a. \<not> isspace c \<and> \<not> is_linebreak c"
          "\<forall>c\<in>set b. \<not> isspace c \<and> \<not> is_linebreak c"
          "s = CHR '':'' \<or> s = CHR ''.''"
  shows "\<forall>c\<in>set (a @ s # b). \<not> isspace c \<and> \<not> is_linebreak c"
  using assms by (auto simp: isspace_def is_linebreak_def)

lemma time_token_plain:
  assumes "telemetry_field ms" "telemetry_field ss" "telemetry_field cs"
  shows "\<forall>c\<in>set (ms @ '':'' @ ss @ ''.'' @ cs). \<not> isspace c \<and> \<not> is_linebreak c"
proof -
  have "\<forall>c\<in>set (ss @ CHR ''.'' # cs). \<not> isspace c \<and> \<not> is_linebreak c"
    by (rule token_plain [OF field_plain [OF assms(2)] field_plain [OF assms(3)]]) simp
  then have "\<forall>c\<in>set (ms @ CHR '':'' # ss @ CHR ''.'' # cs). \<not> isspace c \<and> \<not> is_linebreak c"
    by (rule token_plain [OF field_plain [OF assms(1)]]) simp
  then show ?thesis by simp
qed

lemma hour_token_plain:
  assumes "telemetry_field hs" "telemetry_field ms" "telemetry_field ss" "telemetry_field cs"
  shows "\<forall>c\<in>set (hs @ '':'' @ ms @ '':'' @ ss @ ''.'' @ cs). \<not> isspace c \<and> \<not> is_linebreak c"
proof -
  have "\<forall>c\<in>set (hs @ CHR '':'' # (ms @ '':'' @ ss @ ''.'' @ cs)). \<not> isspace c \<and> \<not> is_linebreak c"
    by (rule token_plain [OF field_plain [OF assms(1)] time_token_plain [OF assms(2,3,4)]]) simp
  then show ?thesis by simp
qed

text \<open>
  The result of a run whose error stream is any number of lines followed by a telemetry
  line of digit fields, with or without a final \<open>\n\<close>.
\<close>

lemma run_command_stream:
  assumes ls: "\<forall>l\<in>set ls. \<forall>c\<in>set l. \<not> is_linebreak c"
    and tok: "tok \<noteq> []" "\<forall>c\<in>set tok. \<not> isspace c \<and> \<not> is_linebreak c"
    and v: "time_to_seconds tok = Inr v"
    and mem: "telemetry_field mem"
    and nl: "nl = [] \<or> nl = [CHR 0x0A]"
  shows "run_command (Exited out (join [CHR 0x0A] (ls @ [tok @ '' '' @ mem]) @ nl) rc) w =
     \<lparr>stdout = out, stderr = join [CHR 0x0A] ls, return_code = Some rc,
      elapsed_time = Some (round3 v),
      memory_usage = Some (round3 (Num (binary64 (of_nat (digits_val mem) / 1024)))),
      timeout = (rc = 137 \<or> w), test_passed = False, message = []\<rparr>"
proof -
  have m: "mem \<noteq> []" using mem by (simp add: telemetry_field_def)
  have "parse_usage (join [CHR 0x0A] (ls @ [tok @ '' '' @ mem]) @ nl)
      = Inr (join [CHR 0x0A] ls, v, int (digits_val mem))"
    by (rule parse_usage_stream [OF ls tok m field_plain [OF mem] nl v py_int_field [OF mem]])
  then show ?thesis by (rule run_command_parsed [OF _ field_bound [OF mem]])
qed

section \<open>A memory figure beyond the range of a float\<close>

text \<open>
  A telemetry line whose memory figure is a one followed by 400 zeros: \<open>int\<close> accepts it
  (it has fewer than 4300 digits), and its division by 1024 raises \<open>OverflowError\<close>.
\<close>

lemma digits_val_one_zeros:
  "digits_val (CHR ''1'' # replicate n (CHR ''0'')) = 10 ^ n"
proof (induction n)
  case 0
  then show ?case by (simp add: digits_val_def digit_val_def)
next
  case (Suc n)
  have "digits_val ((CHR ''1'' # replicate n (CHR ''0'')) @ [CHR ''0'']) = 10 ^ Suc n"
    unfolding digits_val_snoc using Suc by (simp add: digit_val_def)
  then show ?case by (simp add: replicate_append_same)
qed

lemma field_values:
  "telemetry_field ''0''" "telemetry_field ''00''" "telemetry_field ''10''"
  "digits_val ''0'' = 0" "digits_val ''00'' = 0" "digits_val ''10'' = 10"
  by (simp_all add: telemetry_field_def is_digit_def digits_val_def digit_val_def)

lemma overflow_parse:
  "parse_usage (''0:00.10 1'' @ replicate 400 (CHR ''0''))
     = Inr ([], Num (seconds_float 0 10), 10 ^ 400)"
proof -
  let ?mem = "CHR ''1'' # replicate 400 (CHR ''0'')"
  have dig: "list_all is_digit ?mem" by (simp add: list_all_iff is_digit_def)
  have pl: "\<forall>c\<in>set ?mem. \<not> isspace c \<and> \<not> is_linebreak c"
    by (simp add: isspace_def is_linebreak_def)
  have k: "py_int ?mem = Inr (10 ^ 400)"
    using py_int_digits [OF _ dig] digits_val_one_zeros [of 400] by simp
  have t: "time_to_seconds ''0:00.10'' = Inr (Num (seconds_float 0 10))"
    using time_to_seconds_min_sec [OF field_values(1,2,3)] by (simp add: field_values)
  have "parse_usage (''0:00.10'' @ '' '' @ ?mem) = Inr ([], Num (seconds_float 0 10), 10 ^ 400)"
    by (rule parse_usage_single_line [OF _ _ _ pl t k]) (simp_all add: isspace_def is_linebreak_def)
  then show ?thesis by simp
qed

lemma overflow_div:
  "true_div (10 ^ 400) 1024
     = Inl (OverflowError ''integer division result too large for a float'')"
  by (simp add: true_div_def dbl_limit_def)

lemma round3_tenth: "round3 (Num (seconds_float 0 10)) = Num (binary64 (1 / 10))"
  using seconds_float_accurate(2) [of 0 10] by simp

section \<open>The values of the examples\<close>

lemma binary64_examples:
  "binary64 (5 / 2) = 5 / 2" "binary64 50 = 50" "binary64 1 = 1"
proof -
  have "binary64 (5 / 2) = of_int 5629499534213120 / 2 ^ 51"
    by (rule binary64_eval) simp_all
  then show "binary64 (5 / 2) = 5 / 2" by simp
  show "binary64 50 = 50" using binary64_nat [of 50] by simp
  show "binary64 1 = 1" using binary64_nat [of 1] by simp
qed

lemma example_fields:
  "telemetry_field ''0''" "telemetry_field ''02''" "telemetry_field ''50''"
  "telemetry_field ''51200''" "telemetry_field ''00''" "telemetry_field ''10''"
  "telemetry_field ''1024''" "telemetry_field ''05''" "telemetry_field ''01''"
  "telemetry_field ''2048''"
  "digits_val ''0'' = 0" "digits_val ''02'' = 2" "digits_val ''50'' = 50"
  "digits_val ''51200'' = 51200" "digits_val ''00'' = 0" "digits_val ''10'' = 10"
  "digits_val ''1024'' = 1024" "digits_val ''05'' = 5" "digits_val ''01'' = 1"
  "digits_val ''2048'' = 2048"
  by (simp_all add: telemetry_field_def is_digit_def digits_val_def digit_val_def)

lemma example_rounded:
  "round3 (Num (seconds_float 2 50)) = Num (5 / 2)"
  "round3 (Num (binary64 (of_nat (digits_val ''51200'') / 1024))) = Num 50"
  "round3 (Num (binary64 (of_nat (digits_val ''1024'') / 1024))) = Num 1"
proof -
  show "round3 (Num (seconds_float 2 50)) = Num (5 / 2)"
    using seconds_float_accurate(2) [of 2 50] by (simp add: binary64_examples)
  have q: "binary64 (of_nat 51200 / 1024) = of_nat 51200 / 1024"
    "binary64 (of_nat 1024 / 1024) = of_nat 1024 / 1024"
    by (rule binary64_quotient_1024, simp)+
  show "round3 (Num (binary64 (of_nat (digits_val ''51200'') / 1024))) = Num 50"
    unfolding example_fields q by (simp add: round_half_even_def binary64_examples)
  show "round3 (Num (binary64 (of_nat (digits_val ''1024'') / 1024))) = Num 1"
    unfolding example_fields q by (simp add: round_half_even_def binary64_examples)
qed

lemma example_streams:
  assumes "nl = [] \<or> nl = [CHR 0x0A]"
  shows "run_command
       (Exited out (''line1'' @ [CHR 0x0A] @ ''line2'' @ [CHR 0x0A] @ ''0:02.50 51200'' @ nl)
          rc) w
     = \<lparr>stdout = out, stderr = ''line1'' @ [CHR 0x0A] @ ''line2'', return_code = Some rc,
        elapsed_time = Some (Num (5 / 2)), memory_usage = Some (Num 50),
        timeout = (rc = 137 \<or> w), test_passed = False, message = []\<rparr>"
    and "run_command (Exited out (''0:00.10 1024'' @ nl) rc) w
     = \<lparr>stdout = out, stderr = [], return_code = Some rc,
        elapsed_time = Some (Num (binary64 (1 / 10))), memory_usage = Some (Num 1),
        timeout = (rc = 137 \<or> w), test_passed = False, message = []\<rparr>"
proof -
  have t1: "time_to_seconds ''0:02.50'' = Inr (Num (seconds_float 2 50))"
    using time_to_seconds_min_sec [of "''0''" "''02''" "''50''"]
    by (simp add: example_fields numeral_2_eq_2)
  have t2: "time_to_seconds ''0:00.10'' = Inr (Num (seconds_float 0 10))"
    using time_to_seconds_min_sec [of "''0''" "''00''" "''10''"] by (simp add: example_fields)
  have p1: "\<forall>c\<in>set ''0:02.50''. \<not> isspace c \<and> \<not> is_linebreak c"
    and p2: "\<forall>c\<in>set ''0:00.10''. \<not> isspace c \<and> \<not> is_linebreak c"
    and l: "\<forall>l\<in>set [''line1'', ''line2'']. \<forall>c\<in>set l. \<not> is_linebreak c"
    by (simp_all add: isspace_def is_linebreak_def)
  show "run_command
       (Exited out (''line1'' @ [CHR 0x0A] @ ''line2'' @ [CHR 0x0A] @ ''0:02.50 51200'' @ nl)
          rc) w
     = \<lparr>stdout = out, stderr = ''line1'' @ [CHR 0x0A] @ ''line2'', return_code = Some rc,
        elapsed_time = Some (Num (5 / 2)), memory_usage = Some (Num 50),
        timeout = (rc = 137 \<or> w), test_passed = False, message = []\<rparr>"
    using run_command_stream [OF l _ p1 t1 example_fields(4) assms, of out rc w]
    unfolding example_rounded by simp
  show "run_command (Exited out (''0:00.10 1024'' @ nl) rc) w
     = \<lparr>stdout = out, stderr = [], return_code = Some rc,
        elapsed_time = Some (Num (binary64 (1 / 10))), memory_usage = Some (Num 1),
        timeout = (rc = 137 \<or> w), test_passed = False, message = []\<rparr>"
    using run_command_stream [of "[]" "''0:00.10''", OF _ _ p2 t2 example_fields(7) assms, of out rc w]
    unfolding example_rounded round3_tenth by simp
qed

section \<open>The classification\<close>

text \<open>
  C1. A result that comes back with an empty message, the timed-out flag unset and no
  return code should be classified as \<open>Server error\<close>. The branch that says so comes after
  the test \<open>return_code != 0\<close>, which \<open>None\<close> passes: such a result is classified as
  \<open>Runtime error\<close>. It is the fresh result itself, and it is what \<open>run_code\<close> returns when
  the worker caught an exception whose text is empty.
\<close>

theorem C1_none_is_runtime_error:
  "message (classify (new_RunResponse [])) = ''Runtime error'' \<and>
   message (run_code (Raised []) False) = ''Runtime error''"
  by (simp add: classify_def new_RunResponse_def run_code_def run_command_def target_def)

text \<open>
  C4. A result with an empty message and the timed-out flag set is classified as
  \<open>Time limit exceeded\<close>, whatever its return code is.
\<close>

theorem C4_timeout_dominates:
  "message r = [] \<Longrightarrow> timeout r \<Longrightarrow> message (classify r) = ''Time limit exceeded''"
  by (simp add: classify_def)

theorem C4_timeout_dominates_witness:
  "message ((new_RunResponse [])\<lparr>return_code := Some 0, timeout := True\<rparr>) = [] \<and>
   timeout ((new_RunResponse [])\<lparr>return_code := Some 0, timeout := True\<rparr>) \<and>
   message (classify ((new_RunResponse [])\<lparr>return_code := Some 0, timeout := True\<rparr>))
     = ''Time limit exceeded''"
  using C4_timeout_dominates [of "(new_RunResponse [])\<lparr>return_code := Some 0, timeout := True\<rparr>"]
  by (simp add: new_RunResponse_def)

text \<open>
  C5. The classification changes no field but the message, leaves the whole result as it
  is when the message is already set, and sets a message when there is none.
\<close>

theorem C5_classify_frame:
  "stdout (classify r) = stdout r \<and> stderr (classify r) = stderr r \<and>
   return_code (classify r) = return_code r \<and> elapsed_time (classify r) = elapsed_time r \<and>
   memory_usage (classify r) = memory_usage r \<and> timeout (classify r) = timeout r \<and>
   test_passed (classify r) = test_passed r \<and>
   (message r \<noteq> [] \<longrightarrow> classify r = r) \<and>
   (message r = [] \<longrightarrow> message (classify r) \<noteq> [])"
  by (simp add: classify_def)

theorem C5_classify_frame_witness:
  "message (new_RunResponse ''list index out of range'') \<noteq> [] \<and>
   classify (new_RunResponse ''list index out of range'')
     = new_RunResponse ''list index out of range'' \<and>
   message (new_RunResponse []) = [] \<and> message (classify (new_RunResponse [])) \<noteq> []"
  using C5_classify_frame [of "new_RunResponse ''list index out of range''"]
        C5_classify_frame [of "new_RunResponse []"]
  by (simp add: new_RunResponse_def)

section \<open>The watchdog and the sandbox limit\<close>

text \<open>
  C3, as stated: the bound of \<open>thread.join\<close> is strictly greater than the time limit
  given to the sandbox. With the default of five seconds the sandbox is started with
  \<open>--time_limit=5\<close> and the caller waits five seconds.
\<close>

theorem C3_counterexample:
  "''--time_limit=5''
     \<in> set (argv (supervise [''/bin/node'', ''main.js''] ''/tmp/codeforge_x'' 5 1000)) \<and>
   \<not> 5 < join_timeout (supervise [''/bin/node'', ''main.js''] ''/tmp/codeforge_x'' 5 1000)"
  by (simp add: supervise_def nsjail_cmd_def time_cmd_def str_int_def str_nat.simps [of 5]
      digit_char_def)

text \<open>
  C3, amended: the bound of \<open>thread.join\<close>, the bound of \<open>communicate\<close> and the time
  limit given to the sandbox are one and the same parameter, so the watchdog window is
  equal to the sandbox limit and never greater.
\<close>

theorem C3_watchdog_equals_limit:
  "join_timeout (supervise command tempdir t m) = t \<and>
   communicate_timeout (supervise command tempdir t m) = t \<and>
   (''--time_limit='' @ str_int t) \<in> set (argv (supervise command tempdir t m)) \<and>
   \<not> t < join_timeout (supervise command tempdir t m)"
  by (simp add: supervise_def nsjail_cmd_def)

section \<open>Failures of the telemetry parser\<close>

text \<open>
  C2, as stated: when the telemetry is missing, the result carries the message
  \<open>Server error\<close>. With an empty error stream the unpacking of the two tokens fails, and
  the result carries the text of that exception.
\<close>

theorem C2_counterexample:
  "message (run_code (Exited [] [] 0) False)
     = ''not enough values to unpack (expected 2, got 0)''"
  by (simp add: run_code_def classify_def run_command_def target_def parse_usage_def
      split_telemetry_def splitlines_def py_split_def unpack2_def new_RunResponse_def
      str_nat.simps [of 0] digit_char_def)

text \<open>
  C2, amended: when the telemetry is missing or malformed, so that the parser raises,
  \<open>run_code\<close> still returns a result; its message is the text of the exception, which is
  neither empty nor \<open>Server error\<close>, the classifier leaves it as it is, and there is no
  return code.
\<close>

theorem C2_parse_failure_keeps_exception_text:
  "parse_usage err = Inl e \<Longrightarrow>
     message (run_code (Exited out err rc) w) = str_exn e \<and>
     str_exn e \<noteq> [] \<and> str_exn e \<noteq> ''Server error'' \<and>
     return_code (run_code (Exited out err rc) w) = None"
  using parse_usage_error [of err e]
  by (auto simp: run_code_def classify_def run_command_def target_def new_RunResponse_def
      plain_text_def Let_def)

theorem C2_parse_failure_keeps_exception_text_witness:
  "parse_usage ''0:0x.10 1024''
     = Inl (ValueError (''invalid literal for int() with base 10: '' @ [CHR 0x27] @ ''0x''
              @ [CHR 0x27])) \<and>
   message (run_code (Exited ''out'' ''0:0x.10 1024'' 1) True)
     = ''invalid literal for int() with base 10: '' @ [CHR 0x27] @ ''0x'' @ [CHR 0x27] \<and>
   return_code (run_code (Exited ''out'' ''0:0x.10 1024'' 1) True) = None"
proof -
  have h: "parse_usage ''0:0x.10 1024''
     = Inl (ValueError (''invalid literal for int() with base 10: '' @ [CHR 0x27] @ ''0x''
              @ [CHR 0x27]))"
    by (simp add: eval_defs invalid_literal_def py_repr_def repr_quote_def repr_char_def)
  show ?thesis
    using C2_parse_failure_keeps_exception_text [OF h, of "''out''" 1 True] h by simp
qed

section \<open>The return code of a killed sandbox\<close>




section \<open>Elapsed time and memory\<close>

text \<open>
  C7. For a time token \<open>H:MM:SS.cc\<close> or \<open>M:SS.cc\<close> whose fields are decimal digits, the
  fraction having two of them, \<open>time_to_seconds\<close> returns the float that
  hours * 3600 + minutes * 60 + seconds + fraction / 100 evaluates to. An error stream
  that ends with a telemetry line made of such a token and a memory figure, after any
  lines of the program and with or without a final \<open>\n\<close>, leaves in the result this
  value and the memory figure divided by 1024, each passed through \<open>round(_, 3)\<close>. Below
  \<open>10^12\<close> seconds the float is within \<open>(seconds + 5) / 2^53\<close> of the exact sum, and
  the rounded value stored is the float nearest to the exact sum; a memory figure below
  \<open>2^53\<close> is divided by 1024 without error.
\<close>

theorem C7_elapsed_and_memory:
  assumes "telemetry_field hs" "telemetry_field ms" "telemetry_field ss"
    "telemetry_field cs" "length cs = 2" "telemetry_field mem"
    "\<forall>l\<in>set pre. \<forall>c\<in>set l. \<not> is_linebreak c" "nl = [] \<or> nl = [CHR 0x0A]"
  shows
   "time_to_seconds (hs @ '':'' @ ms @ '':'' @ ss @ ''.'' @ cs)
      = Inr (Num (seconds_float (digits_val hs * 3600 + digits_val ms * 60 + digits_val ss)
                    (digits_val cs))) \<and>
    time_to_seconds (ms @ '':'' @ ss @ ''.'' @ cs)
      = Inr (Num (seconds_float (digits_val ms * 60 + digits_val ss) (digits_val cs))) \<and>
    run_command (Exited out (join [CHR 0x0A]
        (pre @ [(hs @ '':'' @ ms @ '':'' @ ss @ ''.'' @ cs) @ '' '' @ mem]) @ nl) rc) w
      = \<lparr>stdout = out, stderr = join [CHR 0x0A] pre, return_code = Some rc,
         elapsed_time = Some (round3 (Num (seconds_float
           (digits_val hs * 3600 + digits_val ms * 60 + digits_val ss) (digits_val cs)))),
         memory_usage = Some (round3 (Num (binary64 (of_nat (digits_val mem) / 1024)))),
         timeout = (rc = 137 \<or> w), test_passed = False, message = []\<rparr> \<and>
    run_command (Exited out (join [CHR 0x0A]
        (pre @ [(ms @ '':'' @ ss @ ''.'' @ cs) @ '' '' @ mem]) @ nl) rc) w
      = \<lparr>stdout = out, stderr = join [CHR 0x0A] pre, return_code = Some rc,
         elapsed_time = Some (round3 (Num (seconds_float
           (digits_val ms * 60 + digits_val ss) (digits_val cs)))),
         memory_usage = Some (round3 (Num (binary64 (of_nat (digits_val mem) / 1024)))),
         timeout = (rc = 137 \<or> w), test_passed = False, message = []\<rparr> \<and>
    (digits_val hs * 3600 + digits_val ms * 60 + digits_val ss < 10 ^ 12 \<longrightarrow>
       \<bar>seconds_float (digits_val hs * 3600 + digits_val ms * 60 + digits_val ss) (digits_val cs)
          - (of_nat (digits_val hs) * 3600 + of_nat (digits_val ms) * 60
             + of_nat (digits_val ss) + of_nat (digits_val cs) / 100)\<bar>
         \<le> (of_nat (digits_val hs * 3600 + digits_val ms * 60 + digits_val ss) + 5) / 2 ^ 53 \<and>
       round3 (Num (seconds_float (digits_val hs * 3600 + digits_val ms * 60 + digits_val ss)
           (digits_val cs)))
         = Num (binary64 (of_nat (digits_val hs) * 3600 + of_nat (digits_val ms) * 60
                           + of_nat (digits_val ss) + of_nat (digits_val cs) / 100))) \<and>
    (digits_val ms * 60 + digits_val ss < 10 ^ 12 \<longrightarrow>
       \<bar>seconds_float (digits_val ms * 60 + digits_val ss) (digits_val cs)
          - (of_nat (digits_val ms) * 60 + of_nat (digits_val ss)
             + of_nat (digits_val cs) / 100)\<bar>
         \<le> (of_nat (digits_val ms * 60 + digits_val ss) + 5) / 2 ^ 53 \<and>
       round3 (Num (seconds_float (digits_val ms * 60 + digits_val ss) (digits_val cs)))
         = Num (binary64 (of_nat (digits_val ms) * 60 + of_nat (digits_val ss)
                           + of_nat (digits_val cs) / 100))) \<and>
    (digits_val mem < 2 ^ 53 \<longrightarrow>
       binary64 (of_nat (digits_val mem) / 1024) = of_nat (digits_val mem) / 1024)"
proof -
  let ?m = "ms @ '':'' @ ss @ ''.'' @ cs"
  let ?h = "hs @ '':'' @ ms @ '':'' @ ss @ ''.'' @ cs"
  let ?SM = "digits_val ms * 60 + digits_val ss"
  let ?SH = "digits_val hs * 3600 + digits_val ms * 60 + digits_val ss"
  have tm: "time_to_seconds ?m = Inr (Num (seconds_float ?SM (digits_val cs)))"
    by (rule time_to_seconds_min_sec [OF assms(2,3,4)])
  have th: "time_to_seconds ?h = Inr (Num (seconds_float ?SH (digits_val cs)))"
    by (rule time_to_seconds_hour_min_sec [OF assms(1,2,3,4)])
  have nm: "?m \<noteq> []" and nh: "?h \<noteq> []" by simp_all
  note rm = run_command_stream [OF assms(7) nm time_token_plain [OF assms(2,3,4)] tm
      assms(6,8), of out rc w]
  note rh = run_command_stream [OF assms(7) nh hour_token_plain [OF assms(1,2,3,4)] th
      assms(6,8), of out rc w]
  have "digits_val cs < 10 ^ length cs"
    using assms(4) digits_val_bound by (simp add: telemetry_field_def)
  then have c: "digits_val cs < 100" using assms(5) by simp
  have am: "?SM < 10 ^ 12 \<longrightarrow>
       \<bar>seconds_float ?SM (digits_val cs)
          - (of_nat (digits_val ms) * 60 + of_nat (digits_val ss)
             + of_nat (digits_val cs) / 100)\<bar>
         \<le> (of_nat ?SM + 5) / 2 ^ 53 \<and>
       round3 (Num (seconds_float ?SM (digits_val cs)))
         = Num (binary64 (of_nat (digits_val ms) * 60 + of_nat (digits_val ss)
                           + of_nat (digits_val cs) / 100))"
    using seconds_float_accurate [of ?SM "digits_val cs"] c by simp
  have ah: "?SH < 10 ^ 12 \<longrightarrow>
       \<bar>seconds_float ?SH (digits_val cs)
          - (of_nat (digits_val hs) * 3600 + of_nat (digits_val ms) * 60
             + of_nat (digits_val ss) + of_nat (digits_val cs) / 100)\<bar>
         \<le> (of_nat ?SH + 5) / 2 ^ 53 \<and>
       round3 (Num (seconds_float ?SH (digits_val cs)))
         = Num (binary64 (of_nat (digits_val hs) * 3600 + of_nat (digits_val ms) * 60
                           + of_nat (digits_val ss) + of_nat (digits_val cs) / 100))"
    using seconds_float_accurate [of ?SH "digits_val cs"] c by simp
  have mm: "digits_val mem < 2 ^ 53 \<longrightarrow>
       binary64 (of_nat (digits_val mem) / 1024) = of_nat (digits_val mem) / 1024"
    using binary64_quotient_1024 by blast
  show ?thesis
    by (intro conjI tm th rm rh am ah mm)
qed

theorem C7_elapsed_and_memory_witness:
  "telemetry_field ''1'' \<and> telemetry_field ''02'' \<and> telemetry_field ''03'' \<and>
   telemetry_field ''45'' \<and> length ''45'' = 2 \<and> telemetry_field ''51264'' \<and>
   list_all (list_all (\<lambda>c. \<not> is_linebreak c)) [''warn''] \<and>
   time_to_seconds ''1:02:03.45'' = Inr (Num (seconds_float 3723 45)) \<and>
   time_to_seconds ''02:03.45'' = Inr (Num (seconds_float 123 45)) \<and>
   \<bar>seconds_float 3723 45 - 372345 / 100\<bar> \<le> 3728 / 2 ^ 53 \<and>
   \<bar>seconds_float 123 45 - 12345 / 100\<bar> \<le> 128 / 2 ^ 53 \<and>
   run_command
       (Exited ''ok'' (''warn'' @ [CHR 0x0A] @ ''1:02:03.45 51264'' @ [CHR 0x0A]) 0) False
     = \<lparr>stdout = ''ok'', stderr = ''warn'', return_code = Some 0,
        elapsed_time = Some (Num (binary64 (372345 / 100))),
        memory_usage = Some (Num (binary64 (50062 / 1000))),
        timeout = False, test_passed = False, message = []\<rparr> \<and>
   run_command
       (Exited ''ok'' (''warn'' @ [CHR 0x0A] @ ''02:03.45 51264'' @ [CHR 0x0A]) 0) False
     = \<lparr>stdout = ''ok'', stderr = ''warn'', return_code = Some 0,
        elapsed_time = Some (Num (binary64 (12345 / 100))),
        memory_usage = Some (Num (binary64 (50062 / 1000))),
        timeout = False, test_passed = False, message = []\<rparr> \<and>
   binary64 (51264 / 1024) = 51264 / 1024"
proof -
  have tie: "\<lfloor>100125 / 2 :: rat\<rfloor> = 50062"
    using floor_divide_of_int_eq [of 100125 2, where ?'a = rat] by simp
  have q: "binary64 (801 / 16) = 801 / 16"
    using binary64_quotient_1024 [of 51264] by simp
  have mem: "round3 (Num (binary64 (801 / 16))) = Num (binary64 (50062 / 1000))"
    unfolding q by (simp add: round_half_even_def Let_def tie)
  show ?thesis
    using C7_elapsed_and_memory [where hs = "''1''" and ms = "''02''" and ss = "''03''"
        and cs = "''45''" and mem = "''51264''" and pre = "[''warn'']" and nl = "[CHR 0x0A]"
        and out = "''ok''" and rc = 0 and w = False] mem
    by (simp add: telemetry_field_def is_digit_def digits_val_def digit_val_def
        is_linebreak_def del: round3.simps)
qed

text \<open>
  C10. The fraction of the seconds is divided by 100 whatever the number of its digits:
  a single digit \<open>d\<close> contributes the float \<open>d / 100\<close>, so that below \<open>10^12\<close> seconds the
  result is within \<open>(seconds + 5) / 2^53\<close> of seconds + d / 100; \<open>0:02.5\<close> is the float
  2.05, not 2.5.
\<close>

theorem C10_fraction_divided_by_100:
  assumes "telemetry_field hs" "telemetry_field ms" "telemetry_field ss"
    "telemetry_field cs" "is_digit d"
  shows
   "time_to_seconds (ms @ '':'' @ ss @ ''.'' @ cs)
      = Inr (Num (seconds_float (digits_val ms * 60 + digits_val ss) (digits_val cs))) \<and>
    time_to_seconds (ms @ '':'' @ ss @ ''.'' @ [d])
      = Inr (Num (seconds_float (digits_val ms * 60 + digits_val ss) (digit_val d))) \<and>
    time_to_seconds (hs @ '':'' @ ms @ '':'' @ ss @ ''.'' @ [d])
      = Inr (Num (seconds_float (digits_val hs * 3600 + digits_val ms * 60 + digits_val ss)
                    (digit_val d))) \<and>
    (digits_val ms * 60 + digits_val ss < 10 ^ 12 \<longrightarrow>
       \<bar>seconds_float (digits_val ms * 60 + digits_val ss) (digit_val d)
          - (of_nat (digits_val ms) * 60 + of_nat (digits_val ss) + of_nat (digit_val d) / 100)\<bar>
         \<le> (of_nat (digits_val ms * 60 + digits_val ss) + 5) / 2 ^ 53) \<and>
    (digits_val hs * 3600 + digits_val ms * 60 + digits_val ss < 10 ^ 12 \<longrightarrow>
       \<bar>seconds_float (digits_val hs * 3600 + digits_val ms * 60 + digits_val ss) (digit_val d)
          - (of_nat (digits_val hs) * 3600 + of_nat (digits_val ms) * 60
             + of_nat (digits_val ss) + of_nat (digit_val d) / 100)\<bar>
         \<le> (of_nat (digits_val hs * 3600 + digits_val ms * 60 + digits_val ss) + 5) / 2 ^ 53) \<and>
    time_to_seconds ''0:02.5'' = Inr (Num (binary64 (205 / 100))) \<and>
    time_to_seconds ''0:02.5'' \<noteq> Inr (Num (binary64 (25 / 10))) \<and>
    binary64 (205 / 100) = 2308094809027379 / 1125899906842624 \<and>
    binary64 (25 / 10) = 25 / 10"
proof -
  let ?SM = "digits_val ms * 60 + digits_val ss"
  let ?SH = "digits_val hs * 3600 + digits_val ms * 60 + digits_val ss"
  have d: "telemetry_field [d]" "digits_val [d] = digit_val d"
    using assms(5) by (simp_all add: telemetry_field_def digits_val_def)
  have d9: "digit_val d < 100" using assms(5) by (auto simp: is_digit_def digit_val_def)
  have t1: "time_to_seconds (ms @ '':'' @ ss @ ''.'' @ cs)
      = Inr (Num (seconds_float ?SM (digits_val cs)))"
    by (rule time_to_seconds_min_sec [OF assms(2,3,4)])
  have t2: "time_to_seconds (ms @ '':'' @ ss @ ''.'' @ [d])
      = Inr (Num (seconds_float ?SM (digit_val d)))"
    using time_to_seconds_min_sec [OF assms(2,3) d(1)] d(2) by simp
  have t3: "time_to_seconds (hs @ '':'' @ ms @ '':'' @ ss @ ''.'' @ [d])
      = Inr (Num (seconds_float ?SH (digit_val d)))"
    using time_to_seconds_hour_min_sec [OF assms(1,2,3) d(1)] d(2) by simp
  have a1: "?SM < 10 ^ 12 \<longrightarrow>
       \<bar>seconds_float ?SM (digit_val d)
          - (of_nat (digits_val ms) * 60 + of_nat (digits_val ss) + of_nat (digit_val d) / 100)\<bar>
         \<le> (of_nat ?SM + 5) / 2 ^ 53"
    using seconds_float_accurate(1) [of ?SM "digit_val d"] d9 by simp
  have a2: "?SH < 10 ^ 12 \<longrightarrow>
       \<bar>seconds_float ?SH (digit_val d)
          - (of_nat (digits_val hs) * 3600 + of_nat (digits_val ms) * 60
             + of_nat (digits_val ss) + of_nat (digit_val d) / 100)\<bar>
         \<le> (of_nat ?SH + 5) / 2 ^ 53"
    using seconds_float_accurate(1) [of ?SH "digit_val d"] d9 by simp
  have f: "telemetry_field ''0''" "telemetry_field ''02''" "telemetry_field ''5''"
    by (simp_all add: telemetry_field_def is_digit_def)
  have v: "digits_val ''0'' * 60 + digits_val ''02'' = 2" "digits_val ''5'' = 5"
    by (simp_all add: digits_val_def digit_val_def)
  have "time_to_seconds (''0'' @ '':'' @ ''02'' @ ''.'' @ ''5'') = Inr (Num (seconds_float 2 5))"
    using time_to_seconds_min_sec [OF f] unfolding v .
  then have "time_to_seconds ''0:02.5'' = Inr (Num (seconds_float 2 5))" by simp
  then have e1: "time_to_seconds ''0:02.5'' = Inr (Num (binary64 (205 / 100)))"
    by (simp only: seconds_float_2_5)
  have e3: "binary64 (205 / 100) = 2308094809027379 / 1125899906842624"
    by (rule seconds_float_2_5(2))
  have e4: "binary64 (25 / 10) = 25 / 10"
    using binary64_examples(1) by simp
  have e2: "time_to_seconds ''0:02.5'' \<noteq> Inr (Num (binary64 (25 / 10)))"
    unfolding e1 e3 e4 by simp
  show ?thesis
    by (intro conjI t1 t2 t3 a1 a2 e1 e2 e3 e4)
qed

theorem C10_fraction_divided_by_100_witness:
  "telemetry_field ''2'' \<and> telemetry_field ''1'' \<and> telemetry_field ''30'' \<and>
   telemetry_field ''123'' \<and> is_digit (CHR ''7'') \<and>
   time_to_seconds ''1:30.123'' = Inr (Num (seconds_float 90 123)) \<and>
   time_to_seconds ''1:30.7'' = Inr (Num (seconds_float 90 7)) \<and>
   time_to_seconds ''2:1:30.7'' = Inr (Num (seconds_float 7290 7)) \<and>
   \<bar>seconds_float 90 7 - 9007 / 100\<bar> \<le> 95 / 2 ^ 53 \<and>
   \<bar>seconds_float 7290 7 - 729007 / 100\<bar> \<le> 7295 / 2 ^ 53"
  using C10_fraction_divided_by_100 [where hs = "''2''" and ms = "''1''" and ss = "''30''"
      and cs = "''123''" and d = "CHR ''7''"]
  by (simp add: telemetry_field_def is_digit_def digits_val_def digit_val_def)

section \<open>The telemetry line\<close>

text \<open>
  C6. An error stream of two or more lines (lines free of line ends, joined by \<open>\n\<close>) is
  split into its last line, the telemetry, and the lines before it, joined again by
  \<open>\n\<close>, the cleaned error stream; this holds when the stream ends with \<open>\n\<close>, as a
  stream written by \<open>/bin/time\<close> does, and when it ends with a last line that is not empty.
  An error stream of a single line, with or without its \<open>\n\<close>, is the telemetry as a
  whole, and the cleaned error stream is empty. When the last line is a telemetry line
  of digit fields, the result holds the lines before it as its error stream. The error
  stream \<open>line1\nline2\n0:02.50 51200\<close> gives the result the error stream
  \<open>line1\nline2\<close>, 2.5 seconds and 50 MB; \<open>0:00.10 1024\<close> gives it the empty error
  stream, the float 0.1 as seconds, and 1 MB; both with or without a final \<open>\n\<close>.
\<close>

theorem C6_last_line_is_telemetry:
  "((\<forall>l\<in>set ls. \<forall>c\<in>set l. \<not> is_linebreak c) \<and> 2 \<le> length ls \<and> last ls \<noteq> [] \<longrightarrow>
      split_telemetry (join [CHR 0x0A] ls) = (join [CHR 0x0A] (butlast ls), last ls)) \<and>
   ((\<forall>l\<in>set ls. \<forall>c\<in>set l. \<not> is_linebreak c) \<and> 2 \<le> length ls \<longrightarrow>
      split_telemetry (join [CHR 0x0A] ls @ [CHR 0x0A])
        = (join [CHR 0x0A] (butlast ls), last ls)) \<and>
   ((\<forall>c\<in>set l. \<not> is_linebreak c) \<longrightarrow>
      split_telemetry l = ([], l) \<and> split_telemetry (l @ [CHR 0x0A]) = ([], l @ [CHR 0x0A])) \<and>
   ((\<forall>l\<in>set pre. \<forall>c\<in>set l. \<not> is_linebreak c) \<and> telemetry_field ms \<and> telemetry_field ss \<and>
    telemetry_field cs \<and> telemetry_field mem \<and> (nl = [] \<or> nl = [CHR 0x0A]) \<longrightarrow>
      stderr (run_command (Exited out
          (join [CHR 0x0A] (pre @ [ms @ '':'' @ ss @ ''.'' @ cs @ '' '' @ mem]) @ nl) rc) w)
        = join [CHR 0x0A] pre) \<and>
   (nl = [] \<or> nl = [CHR 0x0A] \<longrightarrow>
      run_command
          (Exited out
             (''line1'' @ [CHR 0x0A] @ ''line2'' @ [CHR 0x0A] @ ''0:02.50 51200'' @ nl) rc) w
        = \<lparr>stdout = out, stderr = ''line1'' @ [CHR 0x0A] @ ''line2'', return_code = Some rc,
           elapsed_time = Some (Num (5 / 2)), memory_usage = Some (Num 50),
           timeout = (rc = 137 \<or> w), test_passed = False, message = []\<rparr> \<and>
      run_command (Exited out (''0:00.10 1024'' @ nl) rc) w
        = \<lparr>stdout = out, stderr = [], return_code = Some rc,
           elapsed_time = Some (Num (binary64 (1 / 10))), memory_usage = Some (Num 1),
           timeout = (rc = 137 \<or> w), test_passed = False, message = []\<rparr>)"
proof -
  have multi: "split_telemetry (join [CHR 0x0A] ls) = (join [CHR 0x0A] (butlast ls), last ls)"
    if "\<forall>l\<in>set ls. \<forall>c\<in>set l. \<not> is_linebreak c" "2 \<le> length ls" "last ls \<noteq> []"
  proof -
    have "ls \<noteq> []" using that(2) by auto
    then have "splitlines (join [CHR 0x0A] ls) = ls" using that splitlines_join by simp
    then show ?thesis using that(2) by (simp add: split_telemetry_def)
  qed
  have multi_nl: "split_telemetry (join [CHR 0x0A] ls @ [CHR 0x0A])
      = (join [CHR 0x0A] (butlast ls), last ls)"
    if "\<forall>l\<in>set ls. \<forall>c\<in>set l. \<not> is_linebreak c" "2 \<le> length ls"
  proof -
    have "ls \<noteq> []" using that(2) by auto
    then have "splitlines (join [CHR 0x0A] ls @ [CHR 0x0A]) = ls"
      using that splitlines_join_newline by simp
    then show ?thesis using that(2) by (simp add: split_telemetry_def)
  qed
  have single: "split_telemetry l = ([], l)" if "\<forall>c\<in>set l. \<not> is_linebreak c"
    using split_lines_last [OF that, of "[]"] by (simp add: split_telemetry_def splitlines_def)
  have single_nl: "split_telemetry (l @ [CHR 0x0A]) = ([], l @ [CHR 0x0A])"
    if "\<forall>c\<in>set l. \<not> is_linebreak c"
    using split_lines_line [OF that, of "[]" "[]"] by (simp add: split_telemetry_def splitlines_def)
  have cleaned: "stderr (run_command (Exited out
          (join [CHR 0x0A] (pre @ [ms @ '':'' @ ss @ ''.'' @ cs @ '' '' @ mem]) @ nl) rc) w)
        = join [CHR 0x0A] pre"
    if "\<forall>l\<in>set pre. \<forall>c\<in>set l. \<not> is_linebreak c" "telemetry_field ms" "telemetry_field ss"
      "telemetry_field cs" "telemetry_field mem" "nl = [] \<or> nl = [CHR 0x0A]"
  proof -
    have ne: "ms @ '':'' @ ss @ ''.'' @ cs \<noteq> []" by simp
    show ?thesis
      using run_command_stream [OF that(1) ne time_token_plain [OF that(2,3,4)]
          time_to_seconds_min_sec [OF that(2,3,4)] that(5,6), of out rc w]
      by simp
  qed
  show ?thesis
    using multi multi_nl single single_nl cleaned example_streams [of nl out rc w]
    by blast
qed

theorem C6_last_line_is_telemetry_witness:
  "list_all (list_all (\<lambda>c. \<not> is_linebreak c)) [''warning: x'', [], ''0:01.25 2048''] \<and>
   2 \<le> length [''warning: x'', [], ''0:01.25 2048''] \<and>
   last [''warning: x'', [], ''0:01.25 2048''] \<noteq> [] \<and>
   split_telemetry (''warning: x'' @ [CHR 0x0A, CHR 0x0A] @ ''0:01.25 2048'')
     = (''warning: x'' @ [CHR 0x0A], ''0:01.25 2048'') \<and>
   split_telemetry (''warning: x'' @ [CHR 0x0A, CHR 0x0A] @ ''0:01.25 2048'' @ [CHR 0x0A])
     = (''warning: x'' @ [CHR 0x0A], ''0:01.25 2048'') \<and>
   list_all (\<lambda>c. \<not> is_linebreak c) ''0:01.25 2048'' \<and>
   split_telemetry ''0:01.25 2048'' = ([], ''0:01.25 2048'') \<and>
   split_telemetry (''0:01.25 2048'' @ [CHR 0x0A]) = ([], ''0:01.25 2048'' @ [CHR 0x0A]) \<and>
   list_all (list_all (\<lambda>c. \<not> is_linebreak c)) [''Traceback'', ''  boom''] \<and>
   telemetry_field ''0'' \<and> telemetry_field ''01'' \<and> telemetry_field ''25'' \<and>
   telemetry_field ''2048'' \<and>
   stderr (run_command (Exited ''out''
       (''Traceback'' @ [CHR 0x0A] @ ''  boom'' @ [CHR 0x0A] @ ''0:01.25 2048'' @ [CHR 0x0A])
       0) False)
     = ''Traceback'' @ [CHR 0x0A] @ ''  boom'' \<and>
   run_command (Exited ''out'' (''0:00.10 1024'' @ [CHR 0x0A]) 0) False
     = \<lparr>stdout = ''out'', stderr = [], return_code = Some 0,
        elapsed_time = Some (Num (binary64 (1 / 10))), memory_usage = Some (Num 1),
        timeout = False, test_passed = False, message = []\<rparr>"
  using C6_last_line_is_telemetry [where ls = "[''warning: x'', [], ''0:01.25 2048'']"
      and l = "''0:01.25 2048''" and pre = "[''Traceback'', ''  boom'']" and ms = "''0''"
      and ss = "''01''" and cs = "''25''" and mem = "''2048''" and nl = "[CHR 0x0A]"
      and out = "''out''" and rc = 0 and w = False]
  by (simp add: is_linebreak_def telemetry_field_def is_digit_def)

section \<open>The result on the failure paths\<close>

text \<open>
  C9, as stated: when the worker raises before the population of the result is complete,
  the result holds nothing of the output of the process. The last statement of the
  population, the division of the memory figure by 1024, raises \<open>OverflowError\<close> on a
  figure beyond the range of a float, when the four fields before it are written: the
  result then carries the message of the exception together with \<open>stdout\<close>, the return
  code and the elapsed time of the process.
\<close>

theorem C9_counterexample:
  "message (run_command (Exited ''done'' (''0:00.10 1'' @ replicate 400 (CHR ''0'')) 0) False)
     = ''integer division result too large for a float'' \<and>
   stdout (run_command (Exited ''done'' (''0:00.10 1'' @ replicate 400 (CHR ''0'')) 0) False)
     = ''done'' \<and>
   return_code (run_command (Exited ''done'' (''0:00.10 1'' @ replicate 400 (CHR ''0'')) 0) False)
     = Some 0 \<and>
   elapsed_time (run_command (Exited ''done'' (''0:00.10 1'' @ replicate 400 (CHR ''0'')) 0) False)
     = Some (Num (binary64 (1 / 10))) \<and>
   memory_usage (run_command (Exited ''done'' (''0:00.10 1'' @ replicate 400 (CHR ''0'')) 0) False)
     = None"
  using overflow_parse overflow_div round3_tenth
  by (simp add: run_command_def target_def new_RunResponse_def Let_def)

text \<open>
  C9, amended: when \<open>communicate\<close> raises \<open>TimeoutExpired\<close>, when \<open>Popen\<close> or \<open>communicate\<close>
  raises another exception, and when the parsing of the telemetry raises, the result keeps
  the empty \<open>stdout\<close> and \<open>stderr\<close> and no return code, elapsed time or memory usage. When
  the telemetry parses and the division of the memory figure raises, the result holds
  \<open>stdout\<close>, the cleaned \<open>stderr\<close>, the return code and the elapsed time of the process,
  no memory usage, and the message of the exception.
\<close>

theorem C9_failure_paths:
  "run_command TimeoutExpired w
     = \<lparr>stdout = [], stderr = [], return_code = None, elapsed_time = None,
        memory_usage = None, timeout = True, test_passed = False, message = []\<rparr> \<and>
   run_command (Raised m) w
     = \<lparr>stdout = [], stderr = [], return_code = None, elapsed_time = None,
        memory_usage = None, timeout = w, test_passed = False, message = m\<rparr> \<and>
   (parse_usage err = Inl e \<longrightarrow>
      run_command (Exited out err rc) w
        = \<lparr>stdout = [], stderr = [], return_code = None, elapsed_time = None,
           memory_usage = None, timeout = w, test_passed = False, message = str_exn e\<rparr>) \<and>
   (parse_usage err' = Inr (cleaned, v, k) \<and> true_div k 1024 = Inl e' \<longrightarrow>
      run_command (Exited out err' rc) w
        = \<lparr>stdout = out, stderr = cleaned, return_code = Some rc,
           elapsed_time = Some (round3 v), memory_usage = None,
           timeout = (rc = 137 \<or> w), test_passed = False, message = str_exn e'\<rparr>)"
  by (auto simp: run_command_def target_def new_RunResponse_def Let_def)

theorem C9_failure_paths_witness:
  "parse_usage ''oops''
     = Inl (ValueError ''not enough values to unpack (expected 2, got 1)'') \<and>
   run_command (Exited ''out'' ''oops'' 1) False
     = \<lparr>stdout = [], stderr = [], return_code = None, elapsed_time = None,
        memory_usage = None, timeout = False, test_passed = False,
        message = ''not enough values to unpack (expected 2, got 1)''\<rparr> \<and>
   parse_usage (''0:00.10 1'' @ replicate 400 (CHR ''0''))
     = Inr ([], Num (seconds_float 0 10), 10 ^ 400) \<and>
   true_div (10 ^ 400) 1024
     = Inl (OverflowError ''integer division result too large for a float'') \<and>
   run_command (Exited ''out'' (''0:00.10 1'' @ replicate 400 (CHR ''0'')) 1) False
     = \<lparr>stdout = ''out'', stderr = [], return_code = Some 1,
        elapsed_time = Some (Num (binary64 (1 / 10))), memory_usage = None,
        timeout = False, test_passed = False,
        message = ''integer division result too large for a float''\<rparr>"
proof -
  have h: "parse_usage ''oops''
      = Inl (ValueError ''not enough values to unpack (expected 2, got 1)'')"
    by (simp add: eval_defs str_nat.simps [of "Suc 0"] digit_char_def)
  show ?thesis
    using C9_failure_paths [of False "''boom''" "''oops''"
        "ValueError ''not enough values to unpack (expected 2, got 1)''" "''out''" 1
        "''0:00.10 1'' @ replicate 400 (CHR ''0'')" "[]" "Num (seconds_float 0 10)" "10 ^ 400"
        "OverflowError ''integer division result too large for a float''"]
      h overflow_parse overflow_div round3_tenth
    by simp
qed

end
